theory Spec2Isabelle
  imports Complex_Main "HOL-Library.Word"
begin

section \<open>JavaScript values of a device record\<close>

text \<open>
  The fields of a device record arrive as JSON: a number, \<^verbatim>\<open>null\<close>, or absent
  (\<^verbatim>\<open>undefined\<close>). JavaScript numbers are modelled as reals, with \<open>None\<close> standing for
  \<^verbatim>\<open>NaN\<close>; rounding of IEEE doubles is not modelled.
\<close>

datatype jsvalue = JUndefined | JNull | JNum real | JNaN

text \<open>\<^verbatim>\<open>Number(v)\<close>: \<^verbatim>\<open>undefined\<close> becomes \<^verbatim>\<open>NaN\<close>, \<^verbatim>\<open>null\<close> becomes 0.\<close>

fun Number :: "jsvalue \<Rightarrow> real option" where
  "Number JUndefined = None"
| "Number JNull = Some 0"
| "Number (JNum r) = Some r"
| "Number JNaN = None"

text \<open>\<^verbatim>\<open>!x\<close> on a number: true for 0 and for \<^verbatim>\<open>NaN\<close>.\<close>

definition falsy :: "real option \<Rightarrow> bool" where
  "falsy x = (x = None \<or> x = Some 0)"

definition isNaN :: "real option \<Rightarrow> bool" where
  "isNaN x = (x = None)"

fun the_num :: "real option \<Rightarrow> real" where
  "the_num (Some r) = r"
| "the_num None = 0"

section \<open>Geodesy (index.js)\<close>

record latlng =
  lat :: real
  lng :: real

definition toRad :: "real \<Rightarrow> real" where
  "toRad d = (d * pi) / 180"

text \<open>\<^verbatim>\<open>Math.atan2(y, x)\<close> on finite arguments.\<close>

definition atan2 :: "real \<Rightarrow> real \<Rightarrow> real" where
  "atan2 y x =
     (if 0 < x then arctan (y / x)
      else if x < 0 \<and> 0 \<le> y then arctan (y / x) + pi
      else if x < 0 \<and> y < 0 then arctan (y / x) - pi
      else if 0 < y then pi / 2
      else if y < 0 then - (pi / 2)
      else 0)"

definition distanceMeters :: "latlng \<Rightarrow> latlng \<Rightarrow> real" where
  "distanceMeters a b =
     (let R = 6371000;
          dLat = toRad (lat b - lat a);
          dLng = toRad (lng b - lng a);
          x = (sin (dLat / 2))\<^sup>2 +
              cos (toRad (lat a)) * cos (toRad (lat b)) * (sin (dLng / 2))\<^sup>2
      in R * 2 * atan2 (sqrt x) (sqrt (1 - x)))"

section \<open>Configuration constants (index.js)\<close>

definition ETA_REFRESH_MS :: int where
  "ETA_REFRESH_MS = 30000"

definition ARRIVAL_DISTANCE_M :: real where
  "ARRIVAL_DISTANCE_M = 50"

definition STALE_DEVICE_MS :: int where
  "STALE_DEVICE_MS = 10 * 60 * 1000"

definition DESTINATION :: latlng where
  "DESTINATION = \<lparr>lat = - 1.9683524, lng = 30.0890925\<rparr>"

section \<open>Per-vehicle cache and payload (index.js)\<close>

text \<open>
  A cache entry is a JavaScript object whose properties may be absent; an absent property
  reads as \<^verbatim>\<open>undefined\<close>, modelled by \<open>None\<close>. Timestamps are integer milliseconds.
\<close>

record cache_entry =
  etaSeconds :: "real option"
  route :: "latlng list option"
  lastEtaUpdate :: "int option"
  previousEta :: "real option"

definition empty_entry :: cache_entry where
  "empty_entry = \<lparr>etaSeconds = None, route = None, lastEtaUpdate = None, previousEta = None\<rparr>"

text \<open>The map \<^verbatim>\<open>etaCache\<close>, keyed by bus identifier (which may itself be \<^verbatim>\<open>undefined\<close>).\<close>

type_synonym eta_cache = "string option \<rightharpoonup> cache_entry"

text \<open>
  \<open>last_update\<close> holds \<^verbatim>\<open>new Date(device.last_update).getTime()\<close>, \<open>None\<close> when the date
  does not parse (\<^verbatim>\<open>NaN\<close>).
\<close>

record device =
  device_id :: "string option"
  id_alt :: "string option"
  plate_number :: "string option"
  last_lat :: jsvalue
  last_lon :: jsvalue
  last_speed :: jsvalue
  last_update :: "int option"

record google_result =
  durationSeconds :: real
  routePoints :: "latlng list"

record payload =
  p_busId :: "string option"
  p_plateNumber :: string
  p_position :: latlng
  p_eta :: "int option"
  p_etaSeconds :: real
  p_status :: string
  p_message :: string
  p_speed :: jsvalue
  p_lastUpdate :: "int option"
  p_route :: "latlng list"

text \<open>\<^verbatim>\<open>a || b\<close> on optional strings: the empty string is falsy.\<close>

fun or_else :: "string option \<Rightarrow> string option \<Rightarrow> string option" where
  "or_else (Some s) b = (if s = [] then b else Some s)"
| "or_else None b = b"

fun show_id :: "string option \<Rightarrow> string" where
  "show_id (Some s) = s"
| "show_id None = ''undefined''"

text \<open>\<^verbatim>\<open>Math.round\<close>: to the nearest integer, halves upwards.\<close>

definition js_round :: "real \<Rightarrow> int" where
  "js_round x = \<lfloor>x + 1 / 2\<rfloor>"

text \<open>\<^verbatim>\<open>applyCountdown(etaSeconds, lastUpdate, now)\<close>.\<close>

definition applyCountdown :: "real option \<Rightarrow> int option \<Rightarrow> int \<Rightarrow> real" where
  "applyCountdown eta lastUpdate now =
     (case (eta, lastUpdate) of
        (Some e, Some t) \<Rightarrow>
          if e = 0 \<or> t = 0 then 0
          else (let elapsed = real_of_int (now - t) / 1000 in max 0 (e - elapsed))
      | _ \<Rightarrow> 0)"

text \<open>
  The refresh decision of \<^verbatim>\<open>computeBusETA\<close>:
  \<^verbatim>\<open>!cache.lastEtaUpdate || (now - cache.lastEtaUpdate >= ETA_REFRESH_MS)\<close>.
\<close>

definition shouldRefresh :: "cache_entry \<Rightarrow> int \<Rightarrow> bool" where
  "shouldRefresh cache now =
     (case lastEtaUpdate cache of
        None \<Rightarrow> True
      | Some t \<Rightarrow> t = 0 \<or> now - t \<ge> ETA_REFRESH_MS)"

text \<open>
  One call of \<^verbatim>\<open>computeBusETA\<close>. The clock reading \<open>now\<close>, the cache and the routing
  provider (\<^verbatim>\<open>getGoogleRouteData\<close>, which catches every failure and returns \<^verbatim>\<open>null\<close>,
  here \<open>None\<close>) are explicit. The result carries the payload (\<open>None\<close> for \<^verbatim>\<open>null\<close>),
  the cache after the call, and whether the provider was called.
\<close>

record outcome =
  out_payload :: "payload option"
  out_cache :: eta_cache
  out_called :: bool

definition computeBusETA ::
  "(latlng \<Rightarrow> latlng \<Rightarrow> google_result option) \<Rightarrow> int \<Rightarrow> eta_cache \<Rightarrow> device \<Rightarrow> outcome" where
  "computeBusETA getGoogleRouteData now etaCache dev =
     (let busId = or_else (device_id dev) (id_alt dev);
          plate = (case or_else (plate_number dev) None of
                     Some p \<Rightarrow> p | None \<Rightarrow> ''Bus '' @ show_id busId);
          lat0 = Number (last_lat dev);
          lng0 = Number (last_lon dev);
          lastUpdate = last_update dev
      in
      if falsy lat0 \<or> falsy lng0 \<or> isNaN lat0 \<or> isNaN lng0 then
        \<lparr>out_payload = None, out_cache = etaCache, out_called = False\<rparr>
      else
      let position = \<lparr>lat = the_num lat0, lng = the_num lng0\<rparr> in
      if (case lastUpdate of None \<Rightarrow> False | Some t \<Rightarrow> now - t > STALE_DEVICE_MS) then
        \<lparr>out_payload = Some \<lparr>p_busId = busId, p_plateNumber = plate, p_position = position,
            p_eta = None, p_etaSeconds = 0, p_status = ''offline'',
            p_message = ''Device offline'', p_speed = last_speed dev,
            p_lastUpdate = last_update dev, p_route = []\<rparr>,
         out_cache = etaCache, out_called = False\<rparr>
      else
      let cache = (case etaCache busId of Some c \<Rightarrow> c | None \<Rightarrow> empty_entry);
          dist = distanceMeters position DESTINATION
      in
      if dist \<le> ARRIVAL_DISTANCE_M then
        \<lparr>out_payload = Some \<lparr>p_busId = busId, p_plateNumber = plate, p_position = position,
            p_eta = Some 0, p_etaSeconds = 0, p_status = ''arrived'',
            p_message = ''Arrived at destination'', p_speed = last_speed dev,
            p_lastUpdate = last_update dev, p_route = []\<rparr>,
         out_cache = etaCache(busId \<mapsto>
            cache\<lparr>etaSeconds := Some 0, lastEtaUpdate := Some now, route := Some []\<rparr>),
         out_called = False\<rparr>
      else
      let refresh = shouldRefresh cache now;
          etaSeconds0 = (case etaSeconds cache of Some e \<Rightarrow> e | None \<Rightarrow> 0);
          currentRoute0 = (case route cache of Some r \<Rightarrow> r | None \<Rightarrow> []);
          googleResult = (if refresh then getGoogleRouteData position DESTINATION else None);
          etaSeconds1 =
            (if refresh then
               (case googleResult of Some g \<Rightarrow> durationSeconds g | None \<Rightarrow> etaSeconds0)
             else applyCountdown (etaSeconds cache) (lastEtaUpdate cache) now);
          currentRoute =
            (if refresh then
               (case googleResult of Some g \<Rightarrow> routePoints g | None \<Rightarrow> currentRoute0)
             else currentRoute0);
          etaCache1 =
            (if refresh then
               (case googleResult of
                  Some g \<Rightarrow> etaCache(busId \<mapsto>
                      \<lparr>etaSeconds = Some (durationSeconds g), route = Some (routePoints g),
                       lastEtaUpdate = Some now, previousEta = etaSeconds cache\<rparr>)
                | None \<Rightarrow> etaCache)
             else etaCache);
          traffic = (case previousEta cache of
                       Some p \<Rightarrow> p \<noteq> 0 \<and> etaSeconds1 - p \<ge> 90 | None \<Rightarrow> False);
          faster = (case previousEta cache of
                      Some p \<Rightarrow> etaSeconds1 < p - 60 | None \<Rightarrow> False);
          status = (if traffic then ''traffic'' else if faster then ''faster'' else ''normal'');
          message = (if traffic then ''Delayed by traffic''
                     else if faster then ''Moving quickly'' else ''On the way'');
          finalEtaMin = js_round (etaSeconds1 / 60)
      in
        \<lparr>out_payload = Some \<lparr>p_busId = busId, p_plateNumber = plate, p_position = position,
            p_eta = Some finalEtaMin, p_etaSeconds = etaSeconds1, p_status = status,
            p_message = message, p_speed = last_speed dev,
            p_lastUpdate = last_update dev, p_route = currentRoute\<rparr>,
         out_cache = etaCache1, out_called = refresh\<rparr>)"

text \<open>
  Names for the local values of \<^verbatim>\<open>computeBusETA\<close>, used to state its properties:
  the bus identifier, the coordinate check, the position, the offline test, the cache
  entry read at the start of the call (\<^verbatim>\<open>etaCache.get(busId) || {}\<close>).
\<close>

definition busId_of :: "device \<Rightarrow> string option" where
  "busId_of dev = or_else (device_id dev) (id_alt dev)"

definition usableCoords :: "device \<Rightarrow> bool" where
  "usableCoords dev =
     (\<not> (falsy (Number (last_lat dev)) \<or> falsy (Number (last_lon dev)) \<or>
         isNaN (Number (last_lat dev)) \<or> isNaN (Number (last_lon dev))))"

definition position_of :: "device \<Rightarrow> latlng" where
  "position_of dev =
     \<lparr>lat = the_num (Number (last_lat dev)), lng = the_num (Number (last_lon dev))\<rparr>"

definition isStale :: "int \<Rightarrow> device \<Rightarrow> bool" where
  "isStale now dev =
     (case last_update dev of None \<Rightarrow> False | Some t \<Rightarrow> now - t > STALE_DEVICE_MS)"

definition cache_of :: "eta_cache \<Rightarrow> device \<Rightarrow> cache_entry" where
  "cache_of etaCache dev =
     (case etaCache (busId_of dev) of Some c \<Rightarrow> c | None \<Rightarrow> empty_entry)"

definition hasArrived :: "device \<Rightarrow> bool" where
  "hasArrived dev = (distanceMeters (position_of dev) DESTINATION \<le> ARRIVAL_DISTANCE_M)"

text \<open>A tracking cycle: usable coordinates, not offline, not arrived.\<close>

definition tracking :: "int \<Rightarrow> device \<Rightarrow> bool" where
  "tracking now dev = (usableCoords dev \<and> \<not> isStale now dev \<and> \<not> hasArrived dev)"

text \<open>\<open>nonneg_opt\<close>: a value that is absent or at least 0.\<close>

fun nonneg_opt :: "real option \<Rightarrow> bool" where
  "nonneg_opt None = True"
| "nonneg_opt (Some x) = (0 \<le> x)"

text \<open>
  The refresh policy in the words of the specification (section 4.2), for comparison with
  \<open>shouldRefresh\<close>: refresh when the cache age reaches the interval or the vehicle moved
  more than 100 m; suppressed for a vehicle that is not moving and moved less than 50 m,
  unless the cache is more than twice the interval old.
\<close>

definition spec_shouldRefreshEta :: "int \<Rightarrow> real \<Rightarrow> bool \<Rightarrow> bool" where
  "spec_shouldRefreshEta elapsed movedMeters isMoving =
     (if \<not> isMoving \<and> movedMeters < 50 \<and> \<not> (elapsed > 2 * ETA_REFRESH_MS) then False
      else (elapsed \<ge> ETA_REFRESH_MS \<or> movedMeters > 100))"

subsection \<open>Sample inputs\<close>

text \<open>A fix on the meridian of the destination, at latitude \<open>la\<close>, observed at time \<open>t\<close>.\<close>

definition fix_at :: "real \<Rightarrow> real \<Rightarrow> int \<Rightarrow> device" where
  "fix_at la speed t =
     \<lparr>device_id = Some ''bus-1'', id_alt = None, plate_number = Some ''RAB 123 A'',
      last_lat = JNum la, last_lon = JNum 30.0890925, last_speed = JNum speed,
      last_update = Some t\<rparr>"

definition provider_120 :: "latlng \<Rightarrow> latlng \<Rightarrow> google_result option" where
  "provider_120 a b = Some \<lparr>durationSeconds = 120, routePoints = [a, b]\<rparr>"

definition provider_down :: "latlng \<Rightarrow> latlng \<Rightarrow> google_result option" where
  "provider_down a b = None"

definition cache_120 :: eta_cache where
  "cache_120 = [Some ''bus-1'' \<mapsto>
     \<lparr>etaSeconds = Some 120, route = Some [DESTINATION], lastEtaUpdate = Some 1000000,
      previousEta = None\<rparr>]"

section \<open>ETA smoothing (utils/smoothing.js)\<close>

text \<open>
  The state of a one-dimensional Kalman filter, \<^verbatim>\<open>{ value, errorCovariance }\<close>; the field
  \<^verbatim>\<open>value\<close> is named \<open>kvalue\<close> here.
\<close>

record kalman_state =
  kvalue :: real
  errorCovariance :: real

text \<open>
  \<^verbatim>\<open>kalmanFilter1D(state, measurement, processNoise, measurementNoise)\<close>. The divisor of
  the gain is positive whenever the error covariance is not negative, as it is in every
  state the filter produces; a division by zero (\<^verbatim>\<open>Infinity\<close> or \<^verbatim>\<open>NaN\<close> in
  JavaScript) is outside this model.
\<close>

definition kalmanFilter1D :: "kalman_state option \<Rightarrow> real \<Rightarrow> real \<Rightarrow> real \<Rightarrow> kalman_state" where
  "kalmanFilter1D state measurement processNoise measurementNoise =
     (case state of
        None \<Rightarrow> \<lparr>kvalue = measurement, errorCovariance = 1\<rparr>
      | Some st \<Rightarrow>
          (let predictedValue = kvalue st;
               predictedErrorCovariance = errorCovariance st + processNoise;
               kalmanGain = predictedErrorCovariance / (predictedErrorCovariance + measurementNoise);
               updatedValue = predictedValue + kalmanGain * (measurement - predictedValue);
               updatedErrorCovariance = (1 - kalmanGain) * predictedErrorCovariance
           in \<lparr>kvalue = updatedValue, errorCovariance = updatedErrorCovariance\<rparr>))"

text \<open>\<^verbatim>\<open>exponentialMovingAverage(previousValue, newValue, alpha)\<close>.\<close>

definition exponentialMovingAverage :: "real option \<Rightarrow> real \<Rightarrow> real \<Rightarrow> real" where
  "exponentialMovingAverage previousValue newValue alpha =
     (case previousValue of
        None \<Rightarrow> newValue
      | Some prev \<Rightarrow> alpha * newValue + (1 - alpha) * prev)"

text \<open>The ETA smoothing state \<^verbatim>\<open>{ eta, etaFilter, etaEMA }\<close>.\<close>

record eta_state =
  eta :: real
  etaFilter :: "kalman_state option"
  etaEMA :: real

text \<open>
  \<^verbatim>\<open>smoothETA(state, rawETA, smoothedSpeed, distance)\<close>. The state is \<open>None\<close> for
  \<^verbatim>\<open>null\<close>; \<open>rawETA\<close> is \<open>None\<close> for \<^verbatim>\<open>null\<close>, \<^verbatim>\<open>undefined\<close> and \<^verbatim>\<open>NaN\<close>. The last two
  parameters are not read by the function.
\<close>

definition smoothETA :: "eta_state option \<Rightarrow> real option \<Rightarrow> real \<Rightarrow> real \<Rightarrow> eta_state" where
  "smoothETA state rawETA smoothedSpeed distance =
     (case rawETA of
        None \<Rightarrow>
          (case state of Some st \<Rightarrow> st | None \<Rightarrow> \<lparr>eta = 0, etaFilter = None, etaEMA = 0\<rparr>)
      | Some raw \<Rightarrow>
          if raw < 0 then
            (case state of Some st \<Rightarrow> st | None \<Rightarrow> \<lparr>eta = 0, etaFilter = None, etaEMA = 0\<rparr>)
          else
          (let clampedETA = max 0 (min 3600 raw);
               limited = (case state of None \<Rightarrow> False | Some st \<Rightarrow> etaEMA st > 0);
               previousETA = (case state of None \<Rightarrow> 0 | Some st \<Rightarrow> etaEMA st);
               maxDecrease = previousETA * 0.05;
               maxIncrease = previousETA * 0.02;
               targetETA =
                 (if limited then
                    (if clampedETA < previousETA - maxDecrease then previousETA - maxDecrease
                     else if clampedETA > previousETA + maxIncrease then previousETA + maxIncrease
                     else clampedETA)
                  else clampedETA);
               etaFilter' = kalmanFilter1D
                  (case state of None \<Rightarrow> None | Some st \<Rightarrow> etaFilter st) targetETA 1.0 15.0;
               etaEMA' = exponentialMovingAverage
                  (Some (case state of None \<Rightarrow> targetETA | Some st \<Rightarrow> etaEMA st))
                  (kvalue etaFilter') 0.05;
               maxChange = previousETA * 0.05;
               adjustedETA =
                 (if limited \<and> \<bar>etaEMA' - previousETA\<bar> > maxChange then
                    (if etaEMA' < previousETA then previousETA - maxChange
                     else previousETA + maxChange)
                  else etaEMA')
           in \<lparr>eta = max 0 adjustedETA, etaFilter = Some etaFilter', etaEMA = adjustedETA\<rparr>))"

text \<open>
  Successive updates of the smoothing state, as \<^verbatim>\<open>BusSmoothingState.update\<close> performs
  them: each measurement is a triple of the arguments \<open>rawETA\<close>, \<open>smoothedSpeed\<close> and
  \<open>distance\<close>.
\<close>

type_synonym measurement = "real option \<times> real \<times> real"

fun smoothETA_run :: "eta_state option \<Rightarrow> measurement list \<Rightarrow> eta_state option" where
  "smoothETA_run st [] = st"
| "smoothETA_run st ((raw, speed, dst) # ms) =
     smoothETA_run (Some (smoothETA st raw speed dst)) ms"

text \<open>A valid raw ETA: a number that is not negative.\<close>

fun valid_raw :: "measurement \<Rightarrow> bool" where
  "valid_raw (Some r, speed, dst) = (0 \<le> r)"
| "valid_raw (None, speed, dst) = False"

text \<open>
  \<open>within_band lo hi st ms\<close>: along the updates \<open>ms\<close> from the state \<open>st\<close>, every smoothed
  output \<open>eta\<close> lies between the previous \<open>etaEMA\<close> lowered by the fraction \<open>lo\<close> and
  raised by the fraction \<open>hi\<close>.
\<close>

fun within_band :: "real \<Rightarrow> real \<Rightarrow> eta_state \<Rightarrow> measurement list \<Rightarrow> bool" where
  "within_band lo hi st [] = True"
| "within_band lo hi st ((raw, speed, dst) # ms) =
     (etaEMA st - lo * etaEMA st \<le> eta (smoothETA (Some st) raw speed dst) \<and>
      eta (smoothETA (Some st) raw speed dst) \<le> etaEMA st + hi * etaEMA st \<and>
      within_band lo hi (smoothETA (Some st) raw speed dst) ms)"

text \<open>
  Well-formedness of a smoothing state: the error covariance of its filter is not
  negative, so that the divisor of the Kalman gain is positive.
\<close>

definition covariance_ok :: "eta_state \<Rightarrow> bool" where
  "covariance_ok st = (case etaFilter st of None \<Rightarrow> True | Some k \<Rightarrow> 0 \<le> errorCovariance k)"

text \<open>The estimate of the Kalman filter is at most 1.02 times the moving average.\<close>

definition filter_below :: "eta_state \<Rightarrow> bool" where
  "filter_below st = (case etaFilter st of None \<Rightarrow> True | Some k \<Rightarrow> kvalue k \<le> 1.02 * etaEMA st)"

subsection \<open>Runs of the tracking cycle\<close>

text \<open>Successive calls of \<^verbatim>\<open>computeBusETA\<close>, each with its clock reading and provider.\<close>

type_synonym cycle = "int \<times> (latlng \<Rightarrow> latlng \<Rightarrow> google_result option) \<times> device"

fun run_cycles :: "eta_cache \<Rightarrow> cycle list \<Rightarrow> eta_cache" where
  "run_cycles c [] = c"
| "run_cycles c ((now, g, dev) # cs) = run_cycles (out_cache (computeBusETA g now c dev)) cs"

text \<open>The provider returns no negative duration for the request of this cycle.\<close>

fun provider_nonneg :: "cycle \<Rightarrow> bool" where
  "provider_nonneg (now, g, dev) =
     nonneg_opt (map_option durationSeconds (g (position_of dev) DESTINATION))"

text \<open>Every \<open>etaSeconds\<close> stored in the cache is at least 0.\<close>

definition cache_nonneg :: "eta_cache \<Rightarrow> bool" where
  "cache_nonneg c = (\<forall>k e. c k = Some e \<longrightarrow> nonneg_opt (etaSeconds e))"

subsection \<open>The parts of one smoothing update\<close>

text \<open>The rate-limited target and the final clamp of \<^verbatim>\<open>smoothETA\<close>, named for the proofs.\<close>

definition target_of :: "real \<Rightarrow> real \<Rightarrow> real" where
  "target_of e r =
     (let c = max 0 (min 3600 r) in
      if c < e - e * 0.05 then e - e * 0.05
      else if c > e + e * 0.02 then e + e * 0.02 else c)"

definition clamp_of :: "real \<Rightarrow> real \<Rightarrow> real" where
  "clamp_of e u =
     (if \<bar>u - e\<bar> > e * 0.05 then (if u < e then e - e * 0.05 else e + e * 0.05) else u)"

text \<open>
  The invariant of the smoothing state: the moving average, the estimate of the filter and
  its error covariance are not negative.
\<close>

definition eta_state_ok :: "eta_state option \<Rightarrow> bool" where
  "eta_state_ok state =
     (case state of
        None \<Rightarrow> True
      | Some st \<Rightarrow>
          0 \<le> etaEMA st \<and>
          (case etaFilter st of
             None \<Rightarrow> True
           | Some k \<Rightarrow> 0 \<le> errorCovariance k \<and> 0 \<le> kvalue k))"

unbundle bit_operations_syntax

section \<open>Polyline codec (index.js, utils/googleMaps.js)\<close>

text \<open>
  The bitwise operators of JavaScript work on 32-bit two's complement integers, modelled
  as \<open>32 word\<close>; a shift count is taken modulo 32.
\<close>

type_synonym int32 = "32 word"

text \<open>
  The inner \<^verbatim>\<open>do ... while (b >= 0x20)\<close> loop of \<^verbatim>\<open>decodePolyline\<close>, on the part of the
  string from \<^verbatim>\<open>index\<close> on. It returns \<^verbatim>\<open>result\<close> and the rest of the string. Past the
  end of the string \<^verbatim>\<open>charCodeAt\<close> is \<^verbatim>\<open>NaN\<close>: nothing is added to \<^verbatim>\<open>result\<close> and the
  loop ends.
\<close>

fun decode_chunks :: "string \<Rightarrow> nat \<Rightarrow> int32 \<Rightarrow> int32 \<times> string" where
  "decode_chunks [] shift result = (result, [])"
| "decode_chunks (c # cs) shift result =
     (let b = (of_char c :: int) - 63;
          result' = result OR push_bit (shift mod 32) (word_of_int b AND 0x1f)
      in if b \<ge> 0x20 then decode_chunks cs (shift + 5) result' else (result', cs))"

text \<open>\<^verbatim>\<open>(result & 1) !== 0 ? ~(result >> 1) : (result >> 1)\<close>, read as a signed number.\<close>

definition delta_of :: "int32 \<Rightarrow> int" where
  "delta_of result =
     (if result AND 1 \<noteq> 0 then sint (NOT (signed_drop_bit 1 result))
      else sint (signed_drop_bit 1 result))"

text \<open>
  The outer \<^verbatim>\<open>while (index < len)\<close> loop, with the running sums \<^verbatim>\<open>lat\<close> and \<^verbatim>\<open>lng\<close>
  (integers held in doubles).
\<close>

function decode_points :: "string \<Rightarrow> int \<Rightarrow> int \<Rightarrow> latlng list" where
  "decode_points [] lat0 lng0 = []"
| "decode_points (c # cs) lat0 lng0 =
     (let r1 = decode_chunks (c # cs) 0 0;
          lat1 = lat0 + delta_of (fst r1);
          r2 = decode_chunks (snd r1) 0 0;
          lng1 = lng0 + delta_of (fst r2)
      in \<lparr>lat = real_of_int lat1 / 100000, lng = real_of_int lng1 / 100000\<rparr>
           # decode_points (snd r2) lat1 lng1)"
  by pat_completeness auto
termination
proof (relation "measure (\<lambda>(s, a, b). length s)")
  show "wf (measure (\<lambda>(s, a, b). length s))" by simp
next
  fix c :: char and cs :: string and lat0 lng0 :: int and r1 lat1 r2 lng1
  assume r1: "r1 = decode_chunks (c # cs) 0 0" and r2: "r2 = decode_chunks (snd r1) 0 0"
  have le: "length (snd (decode_chunks s k r)) \<le> length s" for s k r
  proof (induction s arbitrary: k r)
    case Nil
    show ?case by simp
  next
    case (Cons d ds)
    show ?case
      using Cons.IH [of "k + 5" "r OR push_bit (k mod 32) (word_of_int (of_char d - 63) AND 0x1f)"]
      by (simp add: Let_def le_SucI del: push_bit_and)
  qed
  have step: "length (snd (decode_chunks (c # cs) k r)) \<le> length cs" for k r
    using le [of cs "k + 5" "r OR push_bit (k mod 32) (word_of_int (of_char c - 63) AND 0x1f)"]
    by (simp add: Let_def del: push_bit_and)
  have "length (snd r1) \<le> length cs" unfolding r1 by (rule step)
  moreover have "length (snd r2) \<le> length (snd r1)" unfolding r2 by (rule le)
  ultimately show "((snd r2, lat1, lng1), (c # cs, lat0, lng0)) \<in> measure (\<lambda>(s, a, b). length s)"
    by simp
qed

text \<open>\<^verbatim>\<open>decodePolyline(encoded)\<close>; the empty string is falsy.\<close>

definition decodePolyline :: "string \<Rightarrow> latlng list" where
  "decodePolyline encoded = (if encoded = [] then [] else decode_points encoded 0 0)"

text \<open>
  Modelled from the spec: the polyline encoder, which the specification requires as the
  algorithmic inverse of the decoder and which is not in the source. It is the classic
  encoder of the format: each coordinate is scaled by \<open>1e5\<close> and rounded, the difference
  to the previous point is shifted left by one bit and inverted when negative, and the
  result is written in groups of five bits, lowest first, each group but the last marked
  with \<open>0x20\<close>, plus 63 as a character.
\<close>

function encode_chunks :: "nat \<Rightarrow> string" where
  "encode_chunks u =
     (if u \<ge> 0x20 then char_of (0x20 + u mod 0x20 + 63) # encode_chunks (u div 0x20)
      else [char_of (u + 63)])"
  by pat_completeness auto
termination
  by (relation "measure id") auto

text \<open>Modelled from the spec: the encoding of one signed difference.\<close>

definition encode_value :: "int \<Rightarrow> string" where
  "encode_value v = encode_chunks (nat (if v < 0 then - (2 * v) - 1 else 2 * v))"

text \<open>Modelled from the spec: the encoding of the points after a previous point.\<close>

fun encode_points :: "int \<Rightarrow> int \<Rightarrow> latlng list \<Rightarrow> string" where
  "encode_points lat0 lng0 [] = []"
| "encode_points lat0 lng0 (p # ps) =
     (let lat1 = js_round (lat p * 100000);
          lng1 = js_round (lng p * 100000)
      in encode_value (lat1 - lat0) @ encode_value (lng1 - lng0) @ encode_points lat1 lng1 ps)"

text \<open>Modelled from the spec: \<open>encode(path)\<close>.\<close>

definition encodePolyline :: "latlng list \<Rightarrow> string" where
  "encodePolyline path = encode_points 0 0 path"

text \<open>Two points agree within \<open>1e-5\<close> degrees in each coordinate.\<close>

definition close_to :: "latlng \<Rightarrow> latlng \<Rightarrow> bool" where
  "close_to q p = (\<bar>lat q - lat p\<bar> \<le> 1 / 100000 \<and> \<bar>lng q - lng p\<bar> \<le> 1 / 100000)"

text \<open>What the decoder returns for an encoded path: each point rounded to \<open>1e-5\<close>.\<close>

definition rounded :: "latlng \<Rightarrow> latlng" where
  "rounded p =
     \<lparr>lat = real_of_int (js_round (lat p * 100000)) / 100000,
      lng = real_of_int (js_round (lng p * 100000)) / 100000\<rparr>"

section \<open>Properties of the tracking cycle\<close>

subsection \<open>Distances on a meridian\<close>

lemma atan2_pos: "0 < x \<Longrightarrow> atan2 y x = arctan (y / x)"
  by (simp add: atan2_def)

lemma distanceMeters_same_lng:
  assumes "lng a = lng b" and "\<bar>lat b - lat a\<bar> < 180"
  shows "distanceMeters a b = 6371000 * \<bar>toRad (lat b - lat a)\<bar>"
proof -
  define h where "h = toRad (lat b - lat a) / 2"
  have hb: "\<bar>h\<bar> < pi / 2"
  proof -
    have "\<bar>h\<bar> = \<bar>lat b - lat a\<bar> * pi / 360"
      by (simp add: h_def toRad_def abs_mult)
    also have "\<dots> < 180 * pi / 360"
      using assms(2) by (simp add: divide_strict_right_mono)
    finally show ?thesis by simp
  qed
  then have cpos: "0 < cos h"
    by (intro cos_gt_zero_pi) (auto simp: abs_less_iff)
  have c2: "1 - (sin h)\<^sup>2 = (cos h)\<^sup>2"
    using sin_cos_squared_add [of h] by linarith
  have s1: "sqrt ((sin h)\<^sup>2) = \<bar>sin h\<bar>" by simp
  have s2: "sqrt (1 - (sin h)\<^sup>2) = cos h"
    using cpos by (simp add: c2)
  have abs_sin: "\<bar>sin h\<bar> = sin \<bar>h\<bar>"
  proof (cases "0 \<le> h")
    case True
    with hb have "0 \<le> sin h" by (intro sin_ge_zero) (auto simp: abs_less_iff)
    with True show ?thesis by simp
  next
    case False
    then have "0 \<le> sin (- h)" using hb by (intro sin_ge_zero) (auto simp: abs_less_iff)
    with False show ?thesis by simp
  qed
  have "arctan (\<bar>sin h\<bar> / cos h) = arctan (tan \<bar>h\<bar>)"
    by (simp add: abs_sin tan_def)
  also have "\<dots> = \<bar>h\<bar>"
    using hb by (intro arctan_tan) auto
  finally have at: "atan2 \<bar>sin h\<bar> (cos h) = \<bar>h\<bar>"
    using cpos by (simp add: atan2_pos)
  have "distanceMeters a b = 6371000 * 2 * atan2 (sqrt ((sin h)\<^sup>2)) (sqrt (1 - (sin h)\<^sup>2))"
    using assms(1) by (simp add: distanceMeters_def Let_def h_def toRad_def)
  also have "\<dots> = 6371000 * 2 * \<bar>h\<bar>"
    by (simp only: s1 s2 at)
  also have "\<dots> = 6371000 * \<bar>toRad (lat b - lat a)\<bar>"
    by (simp add: h_def)
  finally show ?thesis .
qed

lemma distanceMeters_self: "distanceMeters a a = 0"
  using distanceMeters_same_lng [of a a] by (simp add: toRad_def)

subsection \<open>The paths of computeBusETA\<close>

lemma computeBusETA_unusable:
  "\<not> usableCoords dev \<Longrightarrow>
   computeBusETA g now c dev = \<lparr>out_payload = None, out_cache = c, out_called = False\<rparr>"
  by (simp add: computeBusETA_def usableCoords_def Let_def)

lemma computeBusETA_offline:
  "usableCoords dev \<Longrightarrow> isStale now dev \<Longrightarrow>
   out_cache (computeBusETA g now c dev) = c \<and>
   \<not> out_called (computeBusETA g now c dev) \<and>
   (\<exists>p. out_payload (computeBusETA g now c dev) = Some p \<and>
        p_status p = ''offline'' \<and> p_eta p = None \<and> p_etaSeconds p = 0 \<and> p_route p = [] \<and>
        p_speed p = last_speed dev)"
  by (simp add: computeBusETA_def usableCoords_def isStale_def Let_def)

lemma computeBusETA_arrived:
  "usableCoords dev \<Longrightarrow> \<not> isStale now dev \<Longrightarrow> hasArrived dev \<Longrightarrow>
   out_cache (computeBusETA g now c dev) =
     c(busId_of dev \<mapsto> (cache_of c dev)\<lparr>etaSeconds := Some 0, lastEtaUpdate := Some now, route := Some []\<rparr>) \<and>
   \<not> out_called (computeBusETA g now c dev) \<and>
   (\<exists>p. out_payload (computeBusETA g now c dev) = Some p \<and>
        p_status p = ''arrived'' \<and> p_eta p = Some 0 \<and> p_etaSeconds p = 0 \<and> p_route p = [] \<and>
        p_speed p = last_speed dev)"
  by (simp add: computeBusETA_def usableCoords_def isStale_def hasArrived_def
      position_of_def cache_of_def busId_of_def Let_def)

lemma computeBusETA_countdown:
  "tracking now dev \<Longrightarrow> \<not> shouldRefresh (cache_of c dev) now \<Longrightarrow>
   out_cache (computeBusETA g now c dev) = c \<and>
   \<not> out_called (computeBusETA g now c dev) \<and>
   (\<exists>p. out_payload (computeBusETA g now c dev) = Some p \<and>
        p_etaSeconds p = applyCountdown (etaSeconds (cache_of c dev)) (lastEtaUpdate (cache_of c dev)) now \<and>
        p_eta p = Some (js_round (p_etaSeconds p / 60)) \<and>
        p_route p = (case route (cache_of c dev) of Some r \<Rightarrow> r | None \<Rightarrow> []) \<and>
        p_speed p = last_speed dev)"
  by (simp add: computeBusETA_def tracking_def usableCoords_def isStale_def hasArrived_def
      position_of_def cache_of_def busId_of_def Let_def)

lemma computeBusETA_refresh_failed:
  "tracking now dev \<Longrightarrow> shouldRefresh (cache_of c dev) now \<Longrightarrow>
   g (position_of dev) DESTINATION = None \<Longrightarrow>
   out_cache (computeBusETA g now c dev) = c \<and>
   out_called (computeBusETA g now c dev) \<and>
   (\<exists>p. out_payload (computeBusETA g now c dev) = Some p \<and>
        p_etaSeconds p = (case etaSeconds (cache_of c dev) of Some e \<Rightarrow> e | None \<Rightarrow> 0) \<and>
        p_eta p = Some (js_round (p_etaSeconds p / 60)) \<and>
        p_route p = (case route (cache_of c dev) of Some r \<Rightarrow> r | None \<Rightarrow> []) \<and>
        p_speed p = last_speed dev)"
  by (simp add: computeBusETA_def tracking_def usableCoords_def isStale_def hasArrived_def
      position_of_def cache_of_def busId_of_def Let_def)

lemma computeBusETA_refreshed:
  "tracking now dev \<Longrightarrow> shouldRefresh (cache_of c dev) now \<Longrightarrow>
   g (position_of dev) DESTINATION = Some r \<Longrightarrow>
   out_cache (computeBusETA g now c dev) =
     c(busId_of dev \<mapsto> \<lparr>etaSeconds = Some (durationSeconds r), route = Some (routePoints r),
         lastEtaUpdate = Some now, previousEta = etaSeconds (cache_of c dev)\<rparr>) \<and>
   out_called (computeBusETA g now c dev) \<and>
   (\<exists>p. out_payload (computeBusETA g now c dev) = Some p \<and>
        p_etaSeconds p = durationSeconds r \<and>
        p_eta p = Some (js_round (p_etaSeconds p / 60)) \<and>
        p_route p = routePoints r \<and>
        p_speed p = last_speed dev)"
  by (simp add: computeBusETA_def tracking_def usableCoords_def isStale_def hasArrived_def
      position_of_def cache_of_def busId_of_def Let_def)

subsection \<open>The sample inputs\<close>

lemma usable_fix_at: "la \<noteq> 0 \<Longrightarrow> usableCoords (fix_at la s t)"
  by (simp add: usableCoords_def fix_at_def falsy_def isNaN_def)

lemma position_fix_at: "position_of (fix_at la s t) = \<lparr>lat = la, lng = 30.0890925\<rparr>"
  by (simp add: position_of_def fix_at_def)

lemma stale_fix_at: "isStale now (fix_at la s t) = (now - t > 600000)"
  by (simp add: isStale_def fix_at_def STALE_DEVICE_MS_def)

lemma arrived_fix_at_dest: "hasArrived (fix_at (- 1.9683524) s t)"
proof -
  have "position_of (fix_at (- 1.9683524) s t) = DESTINATION"
    by (simp add: position_fix_at DESTINATION_def)
  then show ?thesis
    by (simp add: hasArrived_def distanceMeters_self ARRIVAL_DISTANCE_M_def)
qed

lemma not_arrived_fix_at: "\<not> hasArrived (fix_at (- 1.9441) s t)"
proof -
  have "distanceMeters \<lparr>lat = - 1.9441, lng = 30.0890925\<rparr> DESTINATION
        = 6371000 * \<bar>toRad (- 1.9683524 - (- 1.9441))\<bar>"
    using distanceMeters_same_lng [of "\<lparr>lat = - 1.9441, lng = 30.0890925\<rparr>" DESTINATION]
    by (simp add: DESTINATION_def)
  also have "\<dots> = 6371000 * (0.0242524 * pi / 180)"
    by (simp add: toRad_def abs_mult)
  finally have eq: "distanceMeters \<lparr>lat = - 1.9441, lng = 30.0890925\<rparr> DESTINATION
      = 6371000 * (0.0242524 * pi / 180)" .
  have "2 \<le> pi" by (rule pi_ge_two)
  then have "6371000 * (0.0242524 * pi / 180) > (50::real)" by simp
  with eq show ?thesis
    by (simp add: hasArrived_def position_fix_at ARRIVAL_DISTANCE_M_def)
qed

lemma tracking_fix_at: "now - t \<le> 600000 \<Longrightarrow> tracking now (fix_at (- 1.9441) s t)"
  using not_arrived_fix_at [of s t] by (simp add: tracking_def usable_fix_at stale_fix_at)

lemma busId_fix_at: "busId_of (fix_at la s t) = Some ''bus-1''"
  by (simp add: busId_of_def fix_at_def)

lemma cache_of_120: "cache_of cache_120 (fix_at la s t) =
  \<lparr>etaSeconds = Some 120, route = Some [DESTINATION], lastEtaUpdate = Some 1000000,
      previousEta = None\<rparr>"
  by (simp add: cache_of_def busId_fix_at cache_120_def)

lemma cache_of_empty: "cache_of Map.empty dev = empty_entry"
  by (simp add: cache_of_def)

text \<open>
  Claim C5, as amended. A fix whose latitude and longitude are usable (neither \<^verbatim>\<open>NaN\<close>
  nor 0) and whose observation timestamp is more than \<open>STALE_DEVICE_MS\<close> (10 minutes)
  old yields a payload with status \<open>offline\<close>, a null \<open>eta\<close> and an empty route; the
  cache is returned unchanged and the provider is not called.
\<close>

theorem offline_payload_cache_untouched:
  assumes "usableCoords dev" and "last_update dev = Some t" and "now - t > STALE_DEVICE_MS"
  shows "map_option p_status (out_payload (computeBusETA g now c dev)) = Some ''offline'' \<and>
         map_option p_eta (out_payload (computeBusETA g now c dev)) = Some None \<and>
         map_option p_route (out_payload (computeBusETA g now c dev)) = Some [] \<and>
         out_cache (computeBusETA g now c dev) = c \<and>
         \<not> out_called (computeBusETA g now c dev)"
proof -
  have "isStale now dev" using assms(2,3) by (simp add: isStale_def)
  from computeBusETA_offline [OF assms(1) this, of g c] show ?thesis by auto
qed

theorem offline_payload_cache_untouched_witness:
  "map_option p_status (out_payload (computeBusETA provider_120 1660000 cache_120 (fix_at (- 1.9441) 40 1000000))) = Some ''offline'' \<and>
   map_option p_eta (out_payload (computeBusETA provider_120 1660000 cache_120 (fix_at (- 1.9441) 40 1000000))) = Some None \<and>
   map_option p_route (out_payload (computeBusETA provider_120 1660000 cache_120 (fix_at (- 1.9441) 40 1000000))) = Some [] \<and>
   out_cache (computeBusETA provider_120 1660000 cache_120 (fix_at (- 1.9441) 40 1000000)) = cache_120 \<and>
   \<not> out_called (computeBusETA provider_120 1660000 cache_120 (fix_at (- 1.9441) 40 1000000))"
proof -
  have u: "usableCoords (fix_at (- 1.9441) 40 1000000)" by (simp add: usable_fix_at)
  have l: "last_update (fix_at (- 1.9441) 40 1000000) = Some 1000000" by (simp add: fix_at_def)
  have s: "1660000 - 1000000 > STALE_DEVICE_MS" by (simp add: STALE_DEVICE_MS_def)
  show ?thesis by (rule offline_payload_cache_untouched [OF u l s])
qed

text \<open>
  The claim as stated fails: the coordinate check comes before the offline test, so a fix
  observed 11 minutes ago whose latitude is the number 0 gets no payload at all.
\<close>

theorem stale_zero_coordinate_counterexample:
  "Number (last_lat (fix_at 0 40 1000000)) = Some 0 \<and>
   last_update (fix_at 0 40 1000000) = Some 1000000 \<and>
   1660000 - 1000000 > STALE_DEVICE_MS \<and>
   out_payload (computeBusETA provider_120 1660000 cache_120 (fix_at 0 40 1000000)) = None"
  by (simp add: fix_at_def computeBusETA_def falsy_def Let_def STALE_DEVICE_MS_def)

text \<open>
  Claim C6. A fix that is not stale and lies within 50 m (great-circle distance) of the
  destination yields a payload with status \<open>arrived\<close> and \<open>etaSeconds = 0\<close>; afterwards
  the cache entry of the bus has \<open>etaSeconds = 0\<close> and an empty route.
\<close>

theorem arrival_resets_cache:
  assumes "usableCoords dev" and "\<not> isStale now dev"
    and "distanceMeters (position_of dev) DESTINATION \<le> 50"
  shows "map_option p_status (out_payload (computeBusETA g now c dev)) = Some ''arrived'' \<and>
         map_option p_etaSeconds (out_payload (computeBusETA g now c dev)) = Some 0 \<and>
         map_option etaSeconds (out_cache (computeBusETA g now c dev) (busId_of dev)) = Some (Some 0) \<and>
         map_option route (out_cache (computeBusETA g now c dev) (busId_of dev)) = Some (Some [])"
proof -
  have "hasArrived dev" using assms(3) by (simp add: hasArrived_def ARRIVAL_DISTANCE_M_def)
  from computeBusETA_arrived [OF assms(1,2) this, of g c] show ?thesis by auto
qed

theorem arrival_resets_cache_witness:
  "map_option p_status (out_payload (computeBusETA provider_120 1010000 cache_120 (fix_at (- 1.9683524) 5 1010000))) = Some ''arrived'' \<and>
   map_option p_etaSeconds (out_payload (computeBusETA provider_120 1010000 cache_120 (fix_at (- 1.9683524) 5 1010000))) = Some 0 \<and>
   map_option etaSeconds (out_cache (computeBusETA provider_120 1010000 cache_120 (fix_at (- 1.9683524) 5 1010000)) (Some ''bus-1'')) = Some (Some 0) \<and>
   map_option route (out_cache (computeBusETA provider_120 1010000 cache_120 (fix_at (- 1.9683524) 5 1010000)) (Some ''bus-1'')) = Some (Some [])"
proof -
  have u: "usableCoords (fix_at (- 1.9683524) 5 1010000)" by (simp add: usable_fix_at)
  have s: "\<not> isStale 1010000 (fix_at (- 1.9683524) 5 1010000)" by (simp add: stale_fix_at)
  have d: "distanceMeters (position_of (fix_at (- 1.9683524) 5 1010000)) DESTINATION \<le> 50"
    using arrived_fix_at_dest [of 5 1010000] by (simp add: hasArrived_def ARRIVAL_DISTANCE_M_def)
  show ?thesis
    using arrival_resets_cache [OF u s d, of provider_120 cache_120] by (simp add: busId_fix_at)
qed

subsection \<open>Cache writes\<close>

text \<open>
  Claim C10. On the countdown path (a tracking cycle that is not an arrival and on which no
  refresh is due) the cache after the call is the cache before it, so every field of every
  entry is unchanged. Whenever the cache after a call differs from the cache before, the
  fix was usable and not stale, and the cycle was an arrival or a refresh on which the
  provider returned a result.
\<close>

theorem countdown_writes_nothing:
  "(tracking now dev \<and> \<not> shouldRefresh (cache_of c dev) now \<longrightarrow>
      out_cache (computeBusETA g now c dev) = c) \<and>
   (out_cache (computeBusETA g now c dev) \<noteq> c \<longrightarrow>
      usableCoords dev \<and> \<not> isStale now dev \<and>
      (hasArrived dev \<or>
       (shouldRefresh (cache_of c dev) now \<and> g (position_of dev) DESTINATION \<noteq> None)))"
proof (intro conjI impI)
  assume "tracking now dev \<and> \<not> shouldRefresh (cache_of c dev) now"
  then show "out_cache (computeBusETA g now c dev) = c"
    using computeBusETA_countdown [of now dev c g] by simp
next
  assume w: "out_cache (computeBusETA g now c dev) \<noteq> c"
  show "usableCoords dev"
    using w computeBusETA_unusable [of dev g now c] by auto
  then have u: "usableCoords dev" .
  show "\<not> isStale now dev"
    using w computeBusETA_offline [OF u, of now g c] by auto
  then have s: "\<not> isStale now dev" .
  show "hasArrived dev \<or>
       (shouldRefresh (cache_of c dev) now \<and> g (position_of dev) DESTINATION \<noteq> None)"
  proof (cases "hasArrived dev")
    case True
    then show ?thesis by simp
  next
    case False
    with u s have t: "tracking now dev" by (simp add: tracking_def)
    have r: "shouldRefresh (cache_of c dev) now"
      using w t computeBusETA_countdown [of now dev c g] by auto
    have "g (position_of dev) DESTINATION \<noteq> None"
      using w t r computeBusETA_refresh_failed [of now dev c g] by auto
    with r show ?thesis by simp
  qed
qed

theorem countdown_writes_nothing_witness:
  "tracking 1010000 (fix_at (- 1.9441) 40 1010000) \<and>
   \<not> shouldRefresh (cache_of cache_120 (fix_at (- 1.9441) 40 1010000)) 1010000 \<and>
   out_cache (computeBusETA provider_120 1010000 cache_120 (fix_at (- 1.9441) 40 1010000)) = cache_120"
proof -
  have t: "tracking 1010000 (fix_at (- 1.9441) 40 1010000)"
    by (rule tracking_fix_at) simp
  have r: "\<not> shouldRefresh (cache_of cache_120 (fix_at (- 1.9441) 40 1010000)) 1010000"
    by (simp add: cache_of_120 shouldRefresh_def ETA_REFRESH_MS_def)
  show ?thesis
    using t r countdown_writes_nothing [of 1010000 "fix_at (- 1.9441) 40 1010000" cache_120 provider_120]
    by blast
qed

subsection \<open>Provider failure\<close>

text \<open>
  Claim C3. On a refresh cycle on which the provider call fails (\<^verbatim>\<open>getGoogleRouteData\<close>
  returns \<^verbatim>\<open>null\<close>), the call still returns a payload: its \<open>etaSeconds\<close> and route are
  the cached ones (0 and the empty route when nothing is cached), the cache is unchanged, and
  \<open>eta\<close> is a number, never null.
\<close>

theorem provider_failure_falls_back:
  assumes "tracking now dev" and "shouldRefresh (cache_of c dev) now"
    and "g (position_of dev) DESTINATION = None"
  shows "out_called (computeBusETA g now c dev) \<and>
         out_cache (computeBusETA g now c dev) = c \<and>
         map_option p_etaSeconds (out_payload (computeBusETA g now c dev)) =
           Some (case etaSeconds (cache_of c dev) of Some e \<Rightarrow> e | None \<Rightarrow> 0) \<and>
         map_option p_route (out_payload (computeBusETA g now c dev)) =
           Some (case route (cache_of c dev) of Some r \<Rightarrow> r | None \<Rightarrow> []) \<and>
         map_option p_eta (out_payload (computeBusETA g now c dev)) =
           Some (Some (js_round ((case etaSeconds (cache_of c dev) of Some e \<Rightarrow> e | None \<Rightarrow> 0) / 60)))"
  using assms computeBusETA_refresh_failed [of now dev c g] by auto

theorem provider_failure_falls_back_witness:
  "out_called (computeBusETA provider_down 1030000 cache_120 (fix_at (- 1.9441) 40 1030000)) \<and>
   out_cache (computeBusETA provider_down 1030000 cache_120 (fix_at (- 1.9441) 40 1030000)) = cache_120 \<and>
   map_option p_etaSeconds (out_payload (computeBusETA provider_down 1030000 cache_120 (fix_at (- 1.9441) 40 1030000))) = Some 120 \<and>
   map_option p_route (out_payload (computeBusETA provider_down 1030000 cache_120 (fix_at (- 1.9441) 40 1030000))) = Some [DESTINATION] \<and>
   map_option p_eta (out_payload (computeBusETA provider_down 1030000 cache_120 (fix_at (- 1.9441) 40 1030000))) = Some (Some 2)"
proof -
  have t: "tracking 1030000 (fix_at (- 1.9441) 40 1030000)"
    by (rule tracking_fix_at) simp
  have r: "shouldRefresh (cache_of cache_120 (fix_at (- 1.9441) 40 1030000)) 1030000"
    by (simp add: cache_of_120 shouldRefresh_def ETA_REFRESH_MS_def)
  have d: "provider_down (position_of (fix_at (- 1.9441) 40 1030000)) DESTINATION = None"
    by (simp add: provider_down_def)
  show ?thesis
    using provider_failure_falls_back [of 1030000 "fix_at (- 1.9441) 40 1030000" cache_120 provider_down, OF t r d]
    by (simp add: cache_of_120 js_round_def)
qed

lemma tracking_speed: "tracking now (dev\<lparr>last_speed := s\<rparr>) = tracking now dev"
  by (simp add: tracking_def usableCoords_def isStale_def hasArrived_def position_of_def)

lemma cache_of_speed: "cache_of c (dev\<lparr>last_speed := s\<rparr>) = cache_of c dev"
  by (simp add: cache_of_def busId_of_def)

lemma first_cycle:
  "now - t \<le> 600000 \<Longrightarrow>
   out_cache (computeBusETA provider_120 now Map.empty (fix_at (- 1.9441) s t)) =
     [Some ''bus-1'' \<mapsto> \<lparr>etaSeconds = Some 120,
        route = Some [\<lparr>lat = - 1.9441, lng = 30.0890925\<rparr>, DESTINATION],
        lastEtaUpdate = Some now, previousEta = None\<rparr>] \<and>
   map_option p_etaSeconds (out_payload (computeBusETA provider_120 now Map.empty (fix_at (- 1.9441) s t))) = Some 120 \<and>
   out_called (computeBusETA provider_120 now Map.empty (fix_at (- 1.9441) s t))"
proof -
  assume a: "now - t \<le> 600000"
  have t: "tracking now (fix_at (- 1.9441) s t)" using a by (rule tracking_fix_at)
  have r: "shouldRefresh (cache_of Map.empty (fix_at (- 1.9441) s t)) now"
    by (simp add: cache_of_empty empty_entry_def shouldRefresh_def)
  have g: "provider_120 (position_of (fix_at (- 1.9441) s t)) DESTINATION =
      Some \<lparr>durationSeconds = 120, routePoints = [\<lparr>lat = - 1.9441, lng = 30.0890925\<rparr>, DESTINATION]\<rparr>"
    by (simp add: provider_120_def position_fix_at)
  show ?thesis
    using computeBusETA_refreshed [of now "fix_at (- 1.9441) s t" Map.empty provider_120, OF t r g]
    by (auto simp: busId_fix_at cache_of_empty empty_entry_def)
qed

lemma shouldRefresh_iff:
  "shouldRefresh e now =
     (case lastEtaUpdate e of None \<Rightarrow> True | Some t \<Rightarrow> t = 0 \<or> now - t \<ge> 30000)"
  by (simp add: shouldRefresh_def ETA_REFRESH_MS_def split: option.splits)

subsection \<open>The refresh decision\<close>

text \<open>
  Claim C1, as amended. \<^verbatim>\<open>computeBusETA\<close> calls the routing provider exactly on a
  tracking cycle (usable coordinates, not offline, not arrived) whose cache entry has no
  \<open>lastEtaUpdate\<close> (absent or 0) or whose \<open>lastEtaUpdate\<close> is at least 30000 ms old. The
  decision depends on neither the distance moved nor the speed of the vehicle.
\<close>

theorem refresh_decision_time_only:
  "out_called (computeBusETA g now c dev) =
     (tracking now dev \<and>
      (case lastEtaUpdate (cache_of c dev) of
         None \<Rightarrow> True | Some t \<Rightarrow> t = 0 \<or> now - t \<ge> 30000))"
proof (cases "tracking now dev")
  case True
  show ?thesis
  proof (cases "shouldRefresh (cache_of c dev) now")
    case r: True
    have "out_called (computeBusETA g now c dev)"
    proof (cases "g (position_of dev) DESTINATION")
      case None
      then show ?thesis
        using True r computeBusETA_refresh_failed [of now dev c g] by simp
    next
      case (Some a)
      then show ?thesis
        using True r computeBusETA_refreshed [of now dev c g a] by simp
    qed
    with True r show ?thesis by (simp add: shouldRefresh_iff)
  next
    case False
    then have "\<not> out_called (computeBusETA g now c dev)"
      using True computeBusETA_countdown [of now dev c g] by simp
    with True False show ?thesis by (simp add: shouldRefresh_iff)
  qed
next
  case False
  have "\<not> out_called (computeBusETA g now c dev)"
  proof (cases "usableCoords dev")
    case u: True
    show ?thesis
    proof (cases "isStale now dev")
      case True
      then show ?thesis using u computeBusETA_offline [of dev now g c] by simp
    next
      case s: False
      with u False have "hasArrived dev" by (simp add: tracking_def)
      then show ?thesis using u s computeBusETA_arrived [of dev now g c] by simp
    qed
  next
    case False
    then show ?thesis using computeBusETA_unusable [of dev g now c] by simp
  qed
  with False show ?thesis by simp
qed

theorem refresh_decision_time_only_witness:
  "out_called (computeBusETA provider_120 1030000 cache_120 (fix_at (- 1.9441) 0 1030000)) \<and>
   \<not> out_called (computeBusETA provider_120 1029999 cache_120 (fix_at (- 1.9441) 40 1029999))"
proof -
  have t1: "tracking 1030000 (fix_at (- 1.9441) 0 1030000)" by (rule tracking_fix_at) simp
  have t2: "tracking 1029999 (fix_at (- 1.9441) 40 1029999)" by (rule tracking_fix_at) simp
  show ?thesis
    using t1 t2
      refresh_decision_time_only [of provider_120 1030000 cache_120 "fix_at (- 1.9441) 0 1030000"]
      refresh_decision_time_only [of provider_120 1029999 cache_120 "fix_at (- 1.9441) 40 1029999"]
    by (simp add: cache_of_120)
qed

text \<open>
  The claim as stated fails: a vehicle that stands still (speed 0, moved 0 m) is refreshed
  again 30 s after its last refresh, where the stated policy suppresses the call until the
  cache is more than 60 s old.
\<close>

theorem refresh_policy_counterexample:
  "\<not> spec_shouldRefreshEta (1030000 - 1000000)
       (distanceMeters (position_of (fix_at (- 1.9441) 0 1000000))
                       (position_of (fix_at (- 1.9441) 0 1030000))) False \<and>
   out_called (computeBusETA provider_120 1030000
      (out_cache (computeBusETA provider_120 1000000 Map.empty (fix_at (- 1.9441) 0 1000000)))
      (fix_at (- 1.9441) 0 1030000))"
proof -
  have c1: "out_cache (computeBusETA provider_120 1000000 Map.empty (fix_at (- 1.9441) 0 1000000)) =
     [Some ''bus-1'' \<mapsto> \<lparr>etaSeconds = Some 120,
        route = Some [\<lparr>lat = - 1.9441, lng = 30.0890925\<rparr>, DESTINATION],
        lastEtaUpdate = Some 1000000, previousEta = None\<rparr>]"
    using first_cycle [of 1000000 1000000 0] by simp
  have t: "tracking 1030000 (fix_at (- 1.9441) 0 1030000)" by (rule tracking_fix_at) simp
  have r: "shouldRefresh (cache_of [Some ''bus-1'' \<mapsto> \<lparr>etaSeconds = Some 120,
        route = Some [\<lparr>lat = - 1.9441, lng = 30.0890925\<rparr>, DESTINATION],
        lastEtaUpdate = Some 1000000, previousEta = None\<rparr>] (fix_at (- 1.9441) 0 1030000)) 1030000"
    by (simp add: cache_of_def busId_fix_at shouldRefresh_def ETA_REFRESH_MS_def)
  have g: "provider_120 (position_of (fix_at (- 1.9441) 0 1030000)) DESTINATION =
      Some \<lparr>durationSeconds = 120, routePoints = [\<lparr>lat = - 1.9441, lng = 30.0890925\<rparr>, DESTINATION]\<rparr>"
    by (simp add: provider_120_def position_fix_at)
  have called: "out_called (computeBusETA provider_120 1030000
      (out_cache (computeBusETA provider_120 1000000 Map.empty (fix_at (- 1.9441) 0 1000000)))
      (fix_at (- 1.9441) 0 1030000))"
    unfolding c1
    using computeBusETA_refreshed [of 1030000 "fix_at (- 1.9441) 0 1030000" _ provider_120, OF t r g]
    by simp
  have "\<not> spec_shouldRefreshEta (1030000 - 1000000)
       (distanceMeters (position_of (fix_at (- 1.9441) 0 1000000))
                       (position_of (fix_at (- 1.9441) 0 1030000))) False"
    by (simp add: spec_shouldRefreshEta_def position_fix_at distanceMeters_self ETA_REFRESH_MS_def)
  with called show ?thesis by simp
qed

subsection \<open>The countdown\<close>

lemma applyCountdown_max:
  "e \<noteq> 0 \<or> t \<le> now \<Longrightarrow> t \<noteq> 0 \<Longrightarrow>
   applyCountdown (Some e) (Some t) now = max 0 (e - real_of_int (now - t) / 1000)"
  by (auto simp: applyCountdown_def Let_def max_def)

text \<open>
  Claim C2, as amended. On a tracking cycle on which no refresh is due and a cached ETA
  \<open>e\<close> exists, the returned \<open>etaSeconds\<close> is \<open>max 0 (e - elapsed)\<close>, where \<open>elapsed\<close> is
  the number of seconds since \<open>lastEtaUpdate\<close>, whatever speed the fix reports: the
  countdown is applied to a stationary vehicle as well (\<open>e\<close> non-zero, or the clock not
  behind the last refresh).
\<close>

theorem countdown_ignores_movement:
  assumes "tracking now dev" and "\<not> shouldRefresh (cache_of c dev) now"
    and "etaSeconds (cache_of c dev) = Some e"
    and "lastEtaUpdate (cache_of c dev) = Some t"
    and "e \<noteq> 0 \<or> t \<le> now"
  shows "map_option p_etaSeconds
           (out_payload (computeBusETA g now c (dev\<lparr>last_speed := s\<rparr>))) =
         Some (max 0 (e - real_of_int (now - t) / 1000))"
proof -
  have t0: "t \<noteq> 0" using assms(2,4) by (simp add: shouldRefresh_def)
  have "map_option p_etaSeconds
           (out_payload (computeBusETA g now c (dev\<lparr>last_speed := s\<rparr>))) =
        Some (applyCountdown (Some e) (Some t) now)"
    using assms(1-4) computeBusETA_countdown [of now "dev\<lparr>last_speed := s\<rparr>" c g]
    by (auto simp: tracking_speed cache_of_speed)
  then show ?thesis using assms(5) t0 by (simp add: applyCountdown_max)
qed

theorem countdown_ignores_movement_witness:
  "map_option p_etaSeconds
     (out_payload (computeBusETA provider_120 1010000 cache_120
        ((fix_at (- 1.9441) 40 1010000)\<lparr>last_speed := JNum 0\<rparr>))) = Some 110"
proof -
  have t: "tracking 1010000 (fix_at (- 1.9441) 40 1010000)" by (rule tracking_fix_at) simp
  have r: "\<not> shouldRefresh (cache_of cache_120 (fix_at (- 1.9441) 40 1010000)) 1010000"
    by (simp add: cache_of_120 shouldRefresh_iff)
  have e: "etaSeconds (cache_of cache_120 (fix_at (- 1.9441) 40 1010000)) = Some 120"
    by (simp add: cache_of_120)
  have l: "lastEtaUpdate (cache_of cache_120 (fix_at (- 1.9441) 40 1010000)) = Some 1000000"
    by (simp add: cache_of_120)
  have d: "(120::real) \<noteq> 0 \<or> (1000000::int) \<le> 1010000" by simp
  show ?thesis
    using countdown_ignores_movement [of 1010000 "fix_at (- 1.9441) 40 1010000" cache_120
        120 1000000 provider_120 "JNum 0", OF t r e l d]
    by simp
qed

text \<open>
  The claim as stated fails: of two consecutive fixes of a vehicle standing still, 10 s
  apart, the first payload has \<open>etaSeconds = 120\<close> (from the provider) and the second,
  served from the cache without a provider call, has \<open>etaSeconds = 110\<close>.
\<close>

theorem stationary_countdown_counterexample:
  "map_option p_etaSeconds
     (out_payload (computeBusETA provider_120 1000000 Map.empty (fix_at (- 1.9441) 0 1000000)))
     = Some 120 \<and>
   \<not> out_called (computeBusETA provider_120 1010000
      (out_cache (computeBusETA provider_120 1000000 Map.empty (fix_at (- 1.9441) 0 1000000)))
      (fix_at (- 1.9441) 0 1010000)) \<and>
   map_option p_etaSeconds
     (out_payload (computeBusETA provider_120 1010000
      (out_cache (computeBusETA provider_120 1000000 Map.empty (fix_at (- 1.9441) 0 1000000)))
      (fix_at (- 1.9441) 0 1010000)))
     = Some 110"
proof -
  have c1: "out_cache (computeBusETA provider_120 1000000 Map.empty (fix_at (- 1.9441) 0 1000000)) =
     [Some ''bus-1'' \<mapsto> \<lparr>etaSeconds = Some 120,
        route = Some [\<lparr>lat = - 1.9441, lng = 30.0890925\<rparr>, DESTINATION],
        lastEtaUpdate = Some 1000000, previousEta = None\<rparr>]"
    and p1: "map_option p_etaSeconds
     (out_payload (computeBusETA provider_120 1000000 Map.empty (fix_at (- 1.9441) 0 1000000)))
     = Some 120"
    using first_cycle [of 1000000 1000000 0] by simp_all
  have t: "tracking 1010000 (fix_at (- 1.9441) 0 1010000)" by (rule tracking_fix_at) simp
  have co: "cache_of [Some ''bus-1'' \<mapsto> \<lparr>etaSeconds = Some 120,
        route = Some [\<lparr>lat = - 1.9441, lng = 30.0890925\<rparr>, DESTINATION],
        lastEtaUpdate = Some 1000000, previousEta = None\<rparr>] (fix_at (- 1.9441) 0 1010000)
      = \<lparr>etaSeconds = Some 120,
        route = Some [\<lparr>lat = - 1.9441, lng = 30.0890925\<rparr>, DESTINATION],
        lastEtaUpdate = Some 1000000, previousEta = None\<rparr>"
    by (simp add: cache_of_def busId_fix_at)
  have r: "\<not> shouldRefresh (cache_of [Some ''bus-1'' \<mapsto> \<lparr>etaSeconds = Some 120,
        route = Some [\<lparr>lat = - 1.9441, lng = 30.0890925\<rparr>, DESTINATION],
        lastEtaUpdate = Some 1000000, previousEta = None\<rparr>] (fix_at (- 1.9441) 0 1010000)) 1010000"
    unfolding co by (simp add: shouldRefresh_iff)
  have a: "applyCountdown (Some 120) (Some 1000000) 1010000 = 110"
    by (simp add: applyCountdown_def)
  show ?thesis
    unfolding c1
    using p1 computeBusETA_countdown [of 1010000 "fix_at (- 1.9441) 0 1010000" _ provider_120, OF t r]
    unfolding co by (auto simp: a)
qed

subsection \<open>When a payload is returned\<close>

lemma usableCoords_iff:
  "usableCoords dev =
     (\<not> (Number (last_lat dev) = None \<or> Number (last_lat dev) = Some 0 \<or>
         Number (last_lon dev) = None \<or> Number (last_lon dev) = Some 0))"
  by (auto simp: usableCoords_def falsy_def isNaN_def)

lemma applyCountdown_nonneg: "0 \<le> applyCountdown e t now"
  by (simp add: applyCountdown_def Let_def split: option.splits)

lemma computeBusETA_payload_cases:
  assumes "usableCoords dev"
    and "nonneg_opt (etaSeconds (cache_of c dev))"
    and "nonneg_opt (map_option durationSeconds (g (position_of dev) DESTINATION))"
  shows "\<exists>p. out_payload (computeBusETA g now c dev) = Some p \<and>
              0 \<le> p_etaSeconds p \<and> p_speed p = last_speed dev"
proof (cases "isStale now dev")
  case True
  then show ?thesis using assms(1) computeBusETA_offline [of dev now g c] by auto
next
  case s: False
  show ?thesis
  proof (cases "hasArrived dev")
    case True
    then show ?thesis using assms(1) s computeBusETA_arrived [of dev now g c] by auto
  next
    case False
    with assms(1) s have t: "tracking now dev" by (simp add: tracking_def)
    show ?thesis
    proof (cases "shouldRefresh (cache_of c dev) now")
      case r: True
      show ?thesis
      proof (cases "g (position_of dev) DESTINATION")
        case None
        have "0 \<le> (case etaSeconds (cache_of c dev) of Some e \<Rightarrow> e | None \<Rightarrow> 0)"
          using assms(2) by (cases "etaSeconds (cache_of c dev)") simp_all
        then show ?thesis
          using t r None computeBusETA_refresh_failed [of now dev c g] by auto
      next
        case (Some a)
        then have "0 \<le> durationSeconds a" using assms(3) by simp
        then show ?thesis
          using t r Some computeBusETA_refreshed [of now dev c g a] by auto
      qed
    next
      case False
      then show ?thesis
        using t computeBusETA_countdown [of now dev c g] applyCountdown_nonneg by auto
    qed
  qed
qed

text \<open>
  Claim C7, as amended. \<^verbatim>\<open>computeBusETA\<close> returns null exactly when the latitude or the
  longitude of the fix is \<^verbatim>\<open>NaN\<close> or equal to 0 (the test \<^verbatim>\<open>!lat || !lng\<close> rejects 0
  as well). For every other fix it returns a payload, also when the device is offline;
  when the cached ETA and the duration returned by the provider are not negative, the
  payload's \<open>etaSeconds\<close> is at least 0, and its speed is the speed reported by the fix,
  unchanged.
\<close>

theorem payload_unless_unusable:
  assumes "nonneg_opt (etaSeconds (cache_of c dev))"
    and "nonneg_opt (map_option durationSeconds (g (position_of dev) DESTINATION))"
  shows "(out_payload (computeBusETA g now c dev) = None) =
           (Number (last_lat dev) = None \<or> Number (last_lat dev) = Some 0 \<or>
            Number (last_lon dev) = None \<or> Number (last_lon dev) = Some 0) \<and>
         (case out_payload (computeBusETA g now c dev) of
            None \<Rightarrow> True
          | Some p \<Rightarrow> 0 \<le> p_etaSeconds p \<and> p_speed p = last_speed dev)"
proof (cases "usableCoords dev")
  case True
  from computeBusETA_payload_cases [of dev c g now, OF True assms]
  obtain p where "out_payload (computeBusETA g now c dev) = Some p"
    and "0 \<le> p_etaSeconds p" and "p_speed p = last_speed dev" by blast
  with True show ?thesis by (simp add: usableCoords_iff)
next
  case False
  then have "out_payload (computeBusETA g now c dev) = None"
    using computeBusETA_unusable [of dev g now c] by simp
  with False show ?thesis by (simp add: usableCoords_iff)
qed

theorem payload_unless_unusable_witness:
  "out_payload (computeBusETA provider_120 1660000 cache_120 (fix_at (- 1.9441) 40 1000000)) \<noteq> None \<and>
   (case out_payload (computeBusETA provider_120 1660000 cache_120 (fix_at (- 1.9441) 40 1000000)) of
      None \<Rightarrow> True
    | Some p \<Rightarrow> 0 \<le> p_etaSeconds p \<and> p_speed p = JNum 40)"
proof -
  have a: "nonneg_opt (etaSeconds (cache_of cache_120 (fix_at (- 1.9441) 40 1000000)))"
    by (simp add: cache_of_120)
  have b: "nonneg_opt (map_option durationSeconds
      (provider_120 (position_of (fix_at (- 1.9441) 40 1000000)) DESTINATION))"
    by (simp add: provider_120_def)
  have l: "last_speed (fix_at (- 1.9441) 40 1000000) = JNum 40"
    and n: "Number (last_lat (fix_at (- 1.9441) 40 1000000)) = Some (- 1.9441)"
           "Number (last_lon (fix_at (- 1.9441) 40 1000000)) = Some 30.0890925"
    by (simp_all add: fix_at_def)
  show ?thesis
    using payload_unless_unusable [of cache_120 "fix_at (- 1.9441) 40 1000000" provider_120 1660000,
        OF a b]
    unfolding l n by simp
qed

text \<open>
  The claim as stated fails: a fix whose latitude is the number 0 (and whose longitude is
  a usable number) gets no payload.
\<close>

theorem zero_coordinate_counterexample:
  "Number (last_lat (fix_at 0 40 1000000)) = Some 0 \<and>
   Number (last_lon (fix_at 0 40 1000000)) = Some 30.0890925 \<and>
   out_payload (computeBusETA provider_120 1000000 Map.empty (fix_at 0 40 1000000)) = None"
  by (simp add: fix_at_def computeBusETA_def falsy_def Let_def)

section \<open>Properties of ETA smoothing\<close>

lemma convex_le:
  fixes k v t B :: real
  assumes "0 \<le> k" "k \<le> 1" "v \<le> B" "t \<le> B"
  shows "v + k * (t - v) \<le> B"
proof -
  have "k * (t - v) \<le> k * (B - v)"
    using assms(1,4) by (intro mult_left_mono) simp_all
  also have "\<dots> \<le> 1 * (B - v)"
    using assms(2,3) by (intro mult_right_mono) simp_all
  finally show ?thesis by simp
qed

lemma convex_ge:
  fixes k v t :: real
  assumes "0 \<le> k" "k \<le> 1" "0 \<le> v" "0 \<le> t"
  shows "0 \<le> v + k * (t - v)"
proof -
  have "v + k * (t - v) = (1 - k) * v + k * t" by (simp add: algebra_simps)
  moreover have "0 \<le> (1 - k) * v" using assms(2,3) by simp
  moreover have "0 \<le> k * t" using assms(1,4) by simp
  ultimately show ?thesis by simp
qed

lemma gain_bounds:
  fixes P :: real
  assumes "0 \<le> P"
  shows "0 \<le> (P + 1) / (P + 1 + 15)" and "(P + 1) / (P + 1 + 15) \<le> 1"
  using assms by simp_all

lemma kalman_value_le:
  assumes "case f of None \<Rightarrow> True | Some k \<Rightarrow> 0 \<le> errorCovariance k \<and> kvalue k \<le> B" and "t \<le> B"
  shows "kvalue (kalmanFilter1D f t 1 15) \<le> B"
proof (cases f)
  case None
  then show ?thesis using assms(2) by (simp add: kalmanFilter1D_def)
next
  case (Some k)
  with assms(1) have P: "0 \<le> errorCovariance k" and v: "kvalue k \<le> B" by simp_all
  show ?thesis
    using convex_le [OF gain_bounds [OF P] v assms(2)] Some
    by (simp add: kalmanFilter1D_def Let_def)
qed

lemma kalman_value_ge:
  assumes "case f of None \<Rightarrow> True | Some k \<Rightarrow> 0 \<le> errorCovariance k \<and> 0 \<le> kvalue k" and "0 \<le> t"
  shows "0 \<le> kvalue (kalmanFilter1D f t 1 15)"
proof (cases f)
  case None
  then show ?thesis using assms(2) by (simp add: kalmanFilter1D_def)
next
  case (Some k)
  with assms(1) have P: "0 \<le> errorCovariance k" and v: "0 \<le> kvalue k" by simp_all
  show ?thesis
    using convex_ge [OF gain_bounds [OF P] v assms(2)] Some
    by (simp add: kalmanFilter1D_def Let_def)
qed

lemma kalman_covariance_ge:
  assumes "case f of None \<Rightarrow> True | Some k \<Rightarrow> 0 \<le> errorCovariance k"
  shows "0 \<le> errorCovariance (kalmanFilter1D f t 1 15)"
proof (cases f)
  case None
  then show ?thesis by (simp add: kalmanFilter1D_def)
next
  case (Some k)
  with assms have P: "0 \<le> errorCovariance k" by simp
  have "0 \<le> (1 - (errorCovariance k + 1) / (errorCovariance k + 1 + 15)) * (errorCovariance k + 1)"
    using gain_bounds(2) [OF P] P by (intro mult_nonneg_nonneg) simp_all
  then show ?thesis using Some by (simp add: kalmanFilter1D_def Let_def)
qed

lemma smoothETA_limited:
  assumes "0 < etaEMA st" and "0 \<le> r"
  shows "smoothETA (Some st) (Some r) a b =
     \<lparr>eta = max 0 (clamp_of (etaEMA st)
               (0.05 * kvalue (kalmanFilter1D (etaFilter st) (target_of (etaEMA st) r) 1 15)
                 + 0.95 * etaEMA st)),
      etaFilter = Some (kalmanFilter1D (etaFilter st) (target_of (etaEMA st) r) 1 15),
      etaEMA = clamp_of (etaEMA st)
               (0.05 * kvalue (kalmanFilter1D (etaFilter st) (target_of (etaEMA st) r) 1 15)
                 + 0.95 * etaEMA st)\<rparr>"
proof -
  have t: "(if max 0 (min 3600 r) < etaEMA st - etaEMA st * 0.05 then etaEMA st - etaEMA st * 0.05
        else if max 0 (min 3600 r) > etaEMA st + etaEMA st * 0.02 then etaEMA st + etaEMA st * 0.02
        else max 0 (min 3600 r)) = target_of (etaEMA st) r"
    by (simp only: target_of_def Let_def)
  have c: "\<And>u. (if True \<and> \<bar>u - etaEMA st\<bar> > etaEMA st * 0.05 then
                    (if u < etaEMA st then etaEMA st - etaEMA st * 0.05
                     else etaEMA st + etaEMA st * 0.05)
                  else u) = clamp_of (etaEMA st) u"
    by (simp only: clamp_of_def simp_thms)
  have n: "\<not> r < 0" using assms(2) by simp
  show ?thesis
    unfolding smoothETA_def Let_def
    by (simp only: option.case assms(1) n if_False if_True t c exponentialMovingAverage_def)
       (simp add: algebra_simps)
qed

lemma target_bounds:
  assumes "0 < e"
  shows "0.95 * e \<le> target_of e r" and "target_of e r \<le> 1.02 * e"
  using assms by (auto simp: target_of_def Let_def max_def min_def)

lemma clamp_bounds:
  assumes "0 < e"
  shows "0.95 * e \<le> clamp_of e u" and "clamp_of e u \<le> 1.05 * e"
  using assms by (auto simp: clamp_of_def abs_if split: if_splits)

lemma clamp_le:
  assumes "0 < e" and "u \<le> 1.02 * e"
  shows "clamp_of e u \<le> 1.02 * e" and "u \<le> clamp_of e u"
  using assms by (auto simp: clamp_of_def abs_if split: if_splits)

lemma step_band5:
  assumes "0 < etaEMA st" and "0 \<le> r"
  shows "0.95 * etaEMA st \<le> etaEMA (smoothETA (Some st) (Some r) a b)"
    and "etaEMA (smoothETA (Some st) (Some r) a b) \<le> 1.05 * etaEMA st"
    and "eta (smoothETA (Some st) (Some r) a b) = etaEMA (smoothETA (Some st) (Some r) a b)"
    and "0 < etaEMA (smoothETA (Some st) (Some r) a b)"
proof -
  define u where "u = 0.05 * kvalue (kalmanFilter1D (etaFilter st) (target_of (etaEMA st) r) 1 15)
                 + 0.95 * etaEMA st"
  have e: "etaEMA (smoothETA (Some st) (Some r) a b) = clamp_of (etaEMA st) u"
    and o: "eta (smoothETA (Some st) (Some r) a b) = max 0 (clamp_of (etaEMA st) u)"
    by (simp_all add: smoothETA_limited [OF assms] u_def)
  note cb = clamp_bounds [OF assms(1), of u]
  show "0.95 * etaEMA st \<le> etaEMA (smoothETA (Some st) (Some r) a b)"
    using cb(1) by (simp add: e)
  show "etaEMA (smoothETA (Some st) (Some r) a b) \<le> 1.05 * etaEMA st"
    using cb(2) by (simp add: e)
  have pos: "0 < clamp_of (etaEMA st) u" using cb(1) assms(1) by simp
  then show "0 < etaEMA (smoothETA (Some st) (Some r) a b)" by (simp add: e)
  show "eta (smoothETA (Some st) (Some r) a b) = etaEMA (smoothETA (Some st) (Some r) a b)"
    using pos by (simp add: e o)
qed

lemma step_covariance:
  assumes "0 < etaEMA st" and "0 \<le> r" and "covariance_ok st"
  shows "covariance_ok (smoothETA (Some st) (Some r) a b)"
proof -
  have "0 \<le> errorCovariance (kalmanFilter1D (etaFilter st) (target_of (etaEMA st) r) 1 15)"
    using assms(3) by (intro kalman_covariance_ge) (simp add: covariance_ok_def)
  then show ?thesis
    by (simp add: smoothETA_limited [OF assms(1,2)] covariance_ok_def)
qed

lemma step_band2:
  assumes "0 < etaEMA st" and "0 \<le> r" and "covariance_ok st" and "filter_below st"
  shows "etaEMA (smoothETA (Some st) (Some r) a b) \<le> 1.02 * etaEMA st"
    and "filter_below (smoothETA (Some st) (Some r) a b)"
proof -
  define v where "v = kvalue (kalmanFilter1D (etaFilter st) (target_of (etaEMA st) r) 1 15)"
  define u where "u = 0.05 * v + 0.95 * etaEMA st"
  have e: "etaEMA (smoothETA (Some st) (Some r) a b) = clamp_of (etaEMA st) u"
    and f: "etaFilter (smoothETA (Some st) (Some r) a b) =
        Some (kalmanFilter1D (etaFilter st) (target_of (etaEMA st) r) 1 15)"
    by (simp_all add: smoothETA_limited [OF assms(1,2)] u_def v_def)
  have "case etaFilter st of None \<Rightarrow> True
        | Some k \<Rightarrow> 0 \<le> errorCovariance k \<and> kvalue k \<le> 1.02 * etaEMA st"
    using assms(3,4) by (simp add: covariance_ok_def filter_below_def split: option.splits)
  then have v: "v \<le> 1.02 * etaEMA st"
    unfolding v_def using target_bounds(2) [OF assms(1), of r] by (rule kalman_value_le)
  then have u: "u \<le> 1.02 * etaEMA st" using assms(1) by (simp add: u_def)
  note cl = clamp_le [OF assms(1) u]
  note cb = clamp_bounds [OF assms(1), of u]
  show "etaEMA (smoothETA (Some st) (Some r) a b) \<le> 1.02 * etaEMA st"
    using cl(1) by (simp add: e)
  have "v \<le> 1.02 * clamp_of (etaEMA st) u"
    using v cl(2) cb(1) assms(1) unfolding u_def by simp
  then show "filter_below (smoothETA (Some st) (Some r) a b)"
    by (simp add: filter_below_def f e v_def)
qed

lemma within_band_5:
  assumes "0 < etaEMA st" and "\<forall>m \<in> set ms. valid_raw m"
  shows "within_band 0.05 0.05 st ms"
  using assms
proof (induction ms arbitrary: st)
  case Nil
  show ?case by simp
next
  case (Cons m ms)
  obtain raw a b where m: "m = (raw, a, b)" by (cases m) auto
  with Cons.prems(2) obtain r where r: "raw = Some r" "0 \<le> r"
    by (cases raw) auto
  note sb = step_band5 [OF Cons.prems(1) r(2), of a b]
  have "within_band 0.05 0.05 (smoothETA (Some st) (Some r) a b) ms"
    using Cons.IH [OF sb(4)] Cons.prems(2) by simp
  then show ?case
    using sb(1,2,3) by (simp add: m r(1))
qed

lemma within_band_2:
  assumes "0 < etaEMA st" and "covariance_ok st" and "filter_below st"
    and "\<forall>m \<in> set ms. valid_raw m"
  shows "within_band 0.05 0.02 st ms"
  using assms
proof (induction ms arbitrary: st)
  case Nil
  show ?case by simp
next
  case (Cons m ms)
  obtain raw a b where m: "m = (raw, a, b)" by (cases m) auto
  with Cons.prems(4) obtain r where r: "raw = Some r" "0 \<le> r"
    by (cases raw) auto
  note sb = step_band5 [OF Cons.prems(1) r(2), of a b]
  note s2 = step_band2 [OF Cons.prems(1) r(2) Cons.prems(2,3), of a b]
  note sc = step_covariance [OF Cons.prems(1) r(2) Cons.prems(2), of a b]
  have "within_band 0.05 0.02 (smoothETA (Some st) (Some r) a b) ms"
    using Cons.IH [OF sb(4) sc s2(2)] Cons.prems(4) by simp
  then show ?case
    using sb(1,3) s2(1) by (simp add: m r(1))
qed

text \<open>
  Claim C4, as amended. From every smoothing state whose \<open>etaEMA\<close> is positive and whose
  filter covariance is not negative, along every sequence of valid raw ETA measurements,
  each smoothed output of \<^verbatim>\<open>smoothETA\<close> lies within 5% below and 5% above the previous
  \<open>etaEMA\<close> (the final clamp of the function is 5% in both directions). The increase is
  at most 2% at every step when the estimate of the Kalman filter in the starting state
  is at most 1.02 times its \<open>etaEMA\<close>, as it is after a first positive measurement.
\<close>

theorem smoothed_eta_band:
  assumes "0 < etaEMA st" and "covariance_ok st" and "\<forall>m \<in> set ms. valid_raw m"
  shows "within_band 0.05 0.05 st ms \<and>
         (filter_below st \<longrightarrow> within_band 0.05 0.02 st ms)"
  using within_band_5 [OF assms(1,3)] within_band_2 [of st ms] assms by blast

lemma first_measurement_100:
  "smoothETA None (Some 100) 0 0 =
     \<lparr>eta = 100, etaFilter = Some \<lparr>kvalue = 100, errorCovariance = 1\<rparr>, etaEMA = 100\<rparr>"
  by code_simp

theorem smoothed_eta_band_witness:
  "0 < etaEMA (smoothETA None (Some 100) 0 0) \<and>
   covariance_ok (smoothETA None (Some 100) 0 0) \<and>
   filter_below (smoothETA None (Some 100) 0 0) \<and>
   within_band 0.05 0.02 (smoothETA None (Some 100) 0 0)
     [(Some 10, 0, 0), (Some 100, 0, 0), (Some 10, 0, 0), (Some 100, 0, 0)]"
proof -
  have p: "0 < etaEMA (smoothETA None (Some 100) 0 0)"
    and c: "covariance_ok (smoothETA None (Some 100) 0 0)"
    and f: "filter_below (smoothETA None (Some 100) 0 0)"
    by (simp_all add: first_measurement_100 covariance_ok_def filter_below_def)
  have v: "\<forall>m \<in> set [(Some 10, 0, 0), (Some 100, 0, 0), (Some 10, 0, 0), (Some (100::real), 0::real, 0::real)].
      valid_raw m" by simp
  show ?thesis
    using smoothed_eta_band [OF p c v] p c f by blast
qed

lemma after_0_100:
  "smoothETA (Some (smoothETA None (Some 0) 0 0)) (Some 100) 0 0 =
     \<lparr>eta = 10 / 17, etaFilter = Some \<lparr>kvalue = 200 / 17, errorCovariance = 30 / 17\<rparr>,
      etaEMA = 10 / 17\<rparr>"
  by code_simp

lemma after_0_100_100:
  "eta (smoothETA (Some \<lparr>eta = 10 / 17, etaFilter = Some \<lparr>kvalue = 200 / 17, errorCovariance = 30 / 17\<rparr>,
      etaEMA = 10 / 17\<rparr>) (Some 100) 0 0) = 21 / 34"
  by code_simp

text \<open>
  The claim as stated fails: after the valid measurements 0 and 100 the state has
  \<open>etaEMA = 10/17\<close>, and a further measurement of 100 gives the output \<open>21/34\<close>, an increase
  of 5%.
\<close>

theorem two_percent_increase_counterexample:
  "0 < etaEMA (smoothETA (Some (smoothETA None (Some 0) 0 0)) (Some 100) 0 0) \<and>
   valid_raw (Some 100, 0, 0) \<and>
   \<not> within_band 0.05 0.02
       (smoothETA (Some (smoothETA None (Some 0) 0 0)) (Some 100) 0 0) [(Some 100, 0, 0)]"
  unfolding after_0_100 by (simp add: after_0_100_100)

subsection \<open>Non-negative ETA values\<close>

lemma smoothETA_invalid:
  "raw = None \<or> (\<exists>r. raw = Some r \<and> r < 0) \<Longrightarrow>
   smoothETA state raw a b =
     (case state of Some st \<Rightarrow> st | None \<Rightarrow> \<lparr>eta = 0, etaFilter = None, etaEMA = 0\<rparr>)"
  by (auto simp: smoothETA_def)

lemma smoothETA_first:
  assumes "0 \<le> r"
  shows "smoothETA None (Some r) a b =
     \<lparr>eta = max 0 (max 0 (min 3600 r)),
      etaFilter = Some \<lparr>kvalue = max 0 (min 3600 r), errorCovariance = 1\<rparr>,
      etaEMA = max 0 (min 3600 r)\<rparr>"
proof -
  have n: "\<not> r < 0" using assms by simp
  have avg: "\<And>c::real. 0.05 * c + (1 - 0.05) * c = c" by (simp add: algebra_simps)
  show ?thesis
    unfolding smoothETA_def Let_def
    by (simp only: option.case n if_False simp_thms kalmanFilter1D_def
        exponentialMovingAverage_def kalman_state.simps avg)
qed

lemma smoothETA_unlimited:
  assumes "\<not> 0 < etaEMA st" and "0 \<le> r"
  shows "smoothETA (Some st) (Some r) a b =
     \<lparr>eta = max 0 (0.05 * kvalue (kalmanFilter1D (etaFilter st) (max 0 (min 3600 r)) 1 15)
                 + 0.95 * etaEMA st),
      etaFilter = Some (kalmanFilter1D (etaFilter st) (max 0 (min 3600 r)) 1 15),
      etaEMA = 0.05 * kvalue (kalmanFilter1D (etaFilter st) (max 0 (min 3600 r)) 1 15)
                 + 0.95 * etaEMA st\<rparr>"
proof -
  have n: "\<not> r < 0" using assms(2) by simp
  show ?thesis
    unfolding smoothETA_def Let_def
    by (simp only: option.case assms(1) n if_False simp_thms exponentialMovingAverage_def)
       (simp add: algebra_simps)
qed

lemma smoothETA_keeps_ok:
  assumes "eta_state_ok state"
  shows "eta_state_ok (Some (smoothETA state raw a b))"
proof (cases "raw = None \<or> (\<exists>r. raw = Some r \<and> r < 0)")
  case True
  show ?thesis
    using assms by (simp add: smoothETA_invalid [OF True] eta_state_ok_def split: option.splits)
next
  case False
  then obtain r where r: "raw = Some r" "0 \<le> r" by (cases raw) auto
  show ?thesis
  proof (cases state)
    case None
    show ?thesis
      by (simp add: None r(1) smoothETA_first [OF r(2)] eta_state_ok_def)
  next
    case (Some st)
    with assms have e: "0 \<le> etaEMA st"
      and k: "case etaFilter st of None \<Rightarrow> True
              | Some k \<Rightarrow> 0 \<le> errorCovariance k \<and> 0 \<le> kvalue k"
      by (simp_all add: eta_state_ok_def)
    from k have kc: "case etaFilter st of None \<Rightarrow> True | Some k \<Rightarrow> 0 \<le> errorCovariance k"
      by (simp split: option.splits)
    show ?thesis
    proof (cases "0 < etaEMA st")
      case True
      have t: "0 \<le> target_of (etaEMA st) r"
        using target_bounds(1) [OF True, of r] True by simp
      have v: "0 \<le> kvalue (kalmanFilter1D (etaFilter st) (target_of (etaEMA st) r) 1 15)"
        using k t by (rule kalman_value_ge)
      have c: "0 \<le> errorCovariance (kalmanFilter1D (etaFilter st) (target_of (etaEMA st) r) 1 15)"
        using kc by (rule kalman_covariance_ge)
      have "0 \<le> etaEMA (smoothETA (Some st) (Some r) a b)"
        using step_band5(4) [OF True r(2), of a b] by simp
      then show ?thesis
        using v c by (simp add: Some r(1) smoothETA_limited [OF True r(2)] eta_state_ok_def)
    next
      case False
      have t: "0 \<le> max 0 (min 3600 r)" by simp
      have v: "0 \<le> kvalue (kalmanFilter1D (etaFilter st) (max 0 (min 3600 r)) 1 15)"
        using k t by (rule kalman_value_ge)
      have c: "0 \<le> errorCovariance (kalmanFilter1D (etaFilter st) (max 0 (min 3600 r)) 1 15)"
        using kc by (rule kalman_covariance_ge)
      show ?thesis
        using v c e by (simp add: Some r(1) smoothETA_unlimited [OF False r(2)] eta_state_ok_def)
    qed
  qed
qed

lemma smoothETA_run_ok:
  "eta_state_ok state \<Longrightarrow> eta_state_ok (smoothETA_run state ms)"
proof (induction ms arbitrary: state)
  case Nil
  then show ?case by simp
next
  case (Cons m ms)
  obtain raw a b where m: "m = (raw, a, b)" by (cases m) auto
  show ?case
    using Cons.IH [OF smoothETA_keeps_ok [OF Cons.prems, of raw a b]] by (simp add: m)
qed

lemma cache_nonneg_upd:
  "cache_nonneg c \<Longrightarrow> nonneg_opt (etaSeconds e) \<Longrightarrow> cache_nonneg (c(k \<mapsto> e))"
  by (simp add: cache_nonneg_def)

lemma computeBusETA_keeps_nonneg:
  assumes "cache_nonneg c"
    and "nonneg_opt (map_option durationSeconds (g (position_of dev) DESTINATION))"
  shows "cache_nonneg (out_cache (computeBusETA g now c dev))"
proof (cases "usableCoords dev")
  case False
  then show ?thesis using assms(1) by (simp add: computeBusETA_unusable)
next
  case u: True
  show ?thesis
  proof (cases "isStale now dev")
    case True
    then show ?thesis using assms(1) computeBusETA_offline [OF u True, of g c] by simp
  next
    case s: False
    show ?thesis
    proof (cases "hasArrived dev")
      case True
      show ?thesis
        using computeBusETA_arrived [OF u s True, of g c] assms(1)
        by (simp add: cache_nonneg_upd)
    next
      case False
      with u s have t: "tracking now dev" by (simp add: tracking_def)
      show ?thesis
      proof (cases "shouldRefresh (cache_of c dev) now")
        case False
        then show ?thesis
          using assms(1) t computeBusETA_countdown [of now dev c g] by simp
      next
        case r: True
        show ?thesis
        proof (cases "g (position_of dev) DESTINATION")
          case None
          then show ?thesis
            using assms(1) t r computeBusETA_refresh_failed [of now dev c g] by simp
        next
          case (Some res)
          then have "0 \<le> durationSeconds res" using assms(2) by simp
          then show ?thesis
            using computeBusETA_refreshed [of now dev c g res, OF t r Some] assms(1)
            by (simp add: cache_nonneg_upd)
        qed
      qed
    qed
  qed
qed

lemma run_cycles_nonneg:
  "cache_nonneg c \<Longrightarrow> \<forall>cy \<in> set cycles. provider_nonneg cy \<Longrightarrow>
   cache_nonneg (run_cycles c cycles)"
proof (induction cycles arbitrary: c)
  case Nil
  then show ?case by simp
next
  case (Cons cy cycles)
  obtain now g dev where cy: "cy = (now, g, dev)" by (cases cy) auto
  have "cache_nonneg (out_cache (computeBusETA g now c dev))"
    using Cons.prems by (intro computeBusETA_keeps_nonneg) (simp_all add: cy)
  then show ?case using Cons.IH Cons.prems(2) by (simp add: cy)
qed

text \<open>
  Claim C8. In every state reached from the initial one (empty cache, no smoothing state),
  every \<open>etaSeconds\<close> stored in the cache and the \<open>etaEMA\<close> of the smoothing state are at
  least 0: each call of \<^verbatim>\<open>computeBusETA\<close> (refresh, countdown, arrival) and each
  \<^verbatim>\<open>smoothETA\<close> update keeps this, given that the routing provider returns no negative
  duration.
\<close>

theorem eta_values_never_negative:
  assumes "\<forall>cy \<in> set cycles. provider_nonneg cy"
  shows "cache_nonneg (run_cycles Map.empty cycles) \<and>
         (case smoothETA_run None ms of None \<Rightarrow> True | Some st \<Rightarrow> 0 \<le> etaEMA st)"
proof
  show "cache_nonneg (run_cycles Map.empty cycles)"
    using assms by (intro run_cycles_nonneg) (simp_all add: cache_nonneg_def)
  have "eta_state_ok (smoothETA_run None ms)"
    by (rule smoothETA_run_ok) (simp add: eta_state_ok_def)
  then show "case smoothETA_run None ms of None \<Rightarrow> True | Some st \<Rightarrow> 0 \<le> etaEMA st"
    by (simp add: eta_state_ok_def split: option.splits)
qed

theorem eta_values_never_negative_witness:
  "provider_nonneg (1000000, provider_120, fix_at (- 1.9441) 40 1000000) \<and>
   provider_nonneg (1010000, provider_down, fix_at (- 1.9441) 40 1010000) \<and>
   provider_nonneg (1040000, provider_120, fix_at (- 1.9683524) 0 1040000) \<and>
   cache_nonneg (run_cycles Map.empty
      [(1000000, provider_120, fix_at (- 1.9441) 40 1000000),
       (1010000, provider_down, fix_at (- 1.9441) 40 1010000),
       (1040000, provider_120, fix_at (- 1.9683524) 0 1040000)]) \<and>
   (case smoothETA_run None [(Some 100, 40, 2700), (None, 40, 2600), (Some 10, 0, 2600)] of
      None \<Rightarrow> True | Some st \<Rightarrow> 0 \<le> etaEMA st)"
proof -
  have p: "\<forall>cy \<in> set [(1000000, provider_120, fix_at (- 1.9441) 40 1000000),
                  (1010000, provider_down, fix_at (- 1.9441) 40 1010000),
                  (1040000, provider_120, fix_at (- 1.9683524) 0 1040000)]. provider_nonneg cy"
    by (simp add: provider_120_def provider_down_def)
  show ?thesis
    using p eta_values_never_negative [OF p, of "[(Some 100, 40, 2700), (None, 40, 2600), (Some 10, 0, 2600)]"]
    by simp
qed

section \<open>Properties of the polyline codec\<close>

lemma and_31: "(word_of_int k AND 0x1f :: int32) = word_of_int (k mod 32)"
proof -
  have "(0x1f :: int32) = mask 5" by (simp add: mask_eq_exp_minus_1)
  then have "(word_of_int k AND 0x1f :: int32) = take_bit 5 (word_of_int k)"
    by (simp add: take_bit_eq_mask)
  also have "\<dots> = word_of_int (take_bit 5 k)"
    by (simp add: take_bit_of_int)
  finally show ?thesis by (simp add: take_bit_eq_mod)
qed

lemma split_5_nat: "u mod 32 OR push_bit 5 (u div 32) = (u :: nat)"
proof -
  have "take_bit 5 u OR push_bit 5 (drop_bit 5 u) = u"
  proof (rule bit_eqI)
    fix n
    show "bit (take_bit 5 u OR push_bit 5 (drop_bit 5 u)) n = bit u n"
    proof (cases "n < 5")
      case True
      then show ?thesis by (simp add: bit_simps)
    next
      case False
      then have "5 + (n - 5) = n" by simp
      then show ?thesis using False by (simp add: bit_simps)
    qed
  qed
  then show ?thesis by (simp add: take_bit_eq_mod drop_bit_eq_div)
qed

lemma split_5: "(of_nat (u mod 32) OR push_bit 5 (of_nat (u div 32)) :: int32) = of_nat u"
proof -
  have "(of_nat (u mod 32 OR push_bit 5 (u div 32)) :: int32) = of_nat u"
    by (simp only: split_5_nat)
  then show ?thesis by (simp only: of_nat_or_eq of_nat_push_bit)
qed

lemma delta_of_word:
  assumes "0 \<le> k" and "k < 2 ^ 31"
  shows "delta_of (word_of_int k) = (if odd k then - (k div 2) - 1 else k div 2)"
proof -
  let ?w = "word_of_int k :: int32"
  have s: "sint ?w = k"
    using assms by (simp add: sint_sbintrunc' signed_take_bit_int_eq_self)
  have "odd ?w = odd k"
    using bit_word_of_int_iff [of k 0, where 'a = 32] by (simp add: bit_0)
  moreover have "(?w AND 1 \<noteq> 0) = odd ?w"
    by (simp add: and_one_eq even_iff_mod_2_eq_zero)
  ultimately have o: "(?w AND 1 \<noteq> 0) = odd k" by simp
  have d: "sint (signed_drop_bit 1 ?w) = k div 2"
    by (simp add: sint_signed_drop_bit_eq s drop_bit_eq_div)
  have kd: "0 \<le> k div 2" "k div 2 < 2 ^ 31"
    using assms by simp_all
  have "sint (NOT (signed_drop_bit 1 ?w)) =
        signed_take_bit 32 (NOT (sint (signed_drop_bit 1 ?w)))"
    by (simp add: signed_not_eq)
  also have "\<dots> = signed_take_bit 32 (NOT (k div 2))"
    by (simp only: d)
  also have "\<dots> = NOT (k div 2)"
  proof (rule signed_take_bit_int_eq_self)
    show "- (2 ^ 32) \<le> NOT (k div 2)" using kd by (simp add: not_int_def)
    show "NOT (k div 2) < 2 ^ 32" using kd by (simp add: not_int_def)
  qed
  finally have n: "sint (NOT (signed_drop_bit 1 ?w)) = - (k div 2) - 1"
    by (simp add: not_int_def)
  show ?thesis
    unfolding delta_of_def by (simp only: o d n)
qed

lemma delta_of_zigzag:
  assumes "- (2 ^ 30) \<le> v" and "v < 2 ^ 30"
  shows "delta_of (word_of_nat (nat (if v < 0 then - (2 * v) - 1 else 2 * v))) = v"
proof (cases "v < 0")
  case True
  define k where "k = - (2 * v) - 1"
  have k: "0 \<le> k" "k < 2 ^ 31" using assms True by (simp_all add: k_def)
  have ok: "odd k" by (simp add: k_def)
  have kv: "- (k div 2) - 1 = v" unfolding k_def by presburger
  have w: "(word_of_nat (nat k) :: int32) = word_of_int k"
    using k(1) by (simp only: word_of_int_nat)
  have "delta_of (word_of_nat (nat k)) = v"
    unfolding w delta_of_word [OF k] using ok kv by (simp only: simp_thms if_True)
  then show ?thesis using True unfolding k_def by (simp only: if_True)
next
  case False
  define k where "k = 2 * v"
  have k: "0 \<le> k" "k < 2 ^ 31" using assms False by (simp_all add: k_def)
  have ek: "even k" by (simp add: k_def)
  have kv: "k div 2 = v" by (simp add: k_def)
  have w: "(word_of_nat (nat k) :: int32) = word_of_int k"
    using k(1) by (simp only: word_of_int_nat)
  have "delta_of (word_of_nat (nat k)) = v"
    unfolding w delta_of_word [OF k] using ek kv by (simp only: simp_thms if_False)
  then show ?thesis using False unfolding k_def by (simp only: if_False)
qed

lemma of_char_char_of_nat:
  assumes "n < 256"
  shows "(of_char (char_of (n :: nat)) :: int) = int n"
proof -
  have "(of_char (char_of n) :: nat) = n" using assms by (simp add: of_char_of)
  then have "int (of_char (char_of n) :: nat) = int n" by simp
  then show ?thesis by (simp only: of_nat_of_char)
qed

lemma decode_chunks_last:
  assumes "u < 32" and "shift < 32"
  shows "decode_chunks (char_of (u + 63) # cs) shift result =
           (result OR push_bit shift (of_nat u), cs)"
proof -
  have c: "(of_char (char_of (u + 63)) :: int) = int u + 63"
    using assms(1) by (simp add: of_char_char_of_nat)
  have a: "(word_of_int (int u + 63 - 63) AND 0x1f :: int32) = of_nat u"
    using assms(1) by (simp only: and_31) simp
  have n: "\<not> (0x20 :: int) \<le> int u + 63 - 63" using assms(1) by simp
  have m: "shift mod 32 = shift" using assms(2) by simp
  show ?thesis
    by (simp only: decode_chunks.simps Let_def c a n m if_False)
qed

lemma decode_chunks_more:
  assumes "shift < 32"
  shows "decode_chunks (char_of (0x20 + u mod 0x20 + 63) # cs) shift result =
           decode_chunks cs (shift + 5) (result OR push_bit shift (of_nat (u mod 32)))"
proof -
  have lt: "0x20 + u mod 0x20 + 63 < (256 :: nat)"
    using mod_less_divisor [of 32 u] by simp
  have c: "(of_char (char_of (0x20 + u mod 0x20 + 63)) :: int) = int (0x20 + u mod 0x20 + 63)"
    using lt by (rule of_char_char_of_nat)
  have b: "int (0x20 + u mod 0x20 + 63) - 63 = 32 + int (u mod 32)" by simp
  have a: "(word_of_int (32 + int (u mod 32)) AND 0x1f :: int32) = of_nat (u mod 32)"
    by (simp only: and_31) simp
  have n: "(0x20 :: int) \<le> 32 + int (u mod 32)" by simp
  have m: "shift mod 32 = shift" using assms by simp
  show ?thesis
    by (simp only: decode_chunks.simps Let_def c b a n m if_True)
qed

lemma decode_chunks_encode:
  "shift < 32 \<Longrightarrow> u < 2 ^ (32 - shift) \<Longrightarrow>
   decode_chunks (encode_chunks u @ rest) shift result =
     (result OR push_bit shift (of_nat u), rest)"
proof (induction u arbitrary: shift result rule: encode_chunks.induct)
  case (1 u)
  show ?case
  proof (cases "u \<ge> 0x20")
    case False
    then have e: "encode_chunks u = [char_of (u + 63)]"
      by (subst encode_chunks.simps) simp
    from False have "u < 32" by simp
    then show ?thesis
      using "1.prems"(1) by (simp only: e append_Cons append_Nil decode_chunks_last)
  next
    case True
    then have e: "encode_chunks u =
        char_of (0x20 + u mod 0x20 + 63) # encode_chunks (u div 0x20)"
      by (subst encode_chunks.simps) simp
    have "(2::nat) ^ 5 < 2 ^ (32 - shift)"
      using True "1.prems"(2) by simp
    then have "5 < 32 - shift"
      by (rule power_less_imp_less_exp [rotated]) simp
    then have s5: "shift + 5 < 32" by simp
    have "32 - shift = 5 + (32 - (shift + 5))" using s5 by simp
    then have p: "(2::nat) ^ (32 - shift) = 2 ^ 5 * 2 ^ (32 - (shift + 5))"
      by (simp only: power_add)
    have "u < 2 ^ 5 * 2 ^ (32 - (shift + 5))" using "1.prems"(2) by (simp only: p)
    then have "u div 2 ^ 5 < 2 ^ (32 - (shift + 5))"
      by (simp only: less_mult_imp_div_less mult.commute)
    then have d: "u div 0x20 < 2 ^ (32 - (shift + 5))" by simp
    have ih: "decode_chunks (encode_chunks (u div 0x20) @ rest) (shift + 5)
          (result OR push_bit shift (of_nat (u mod 32))) =
        ((result OR push_bit shift (of_nat (u mod 32))) OR push_bit (shift + 5) (of_nat (u div 0x20)), rest)"
      by (rule "1.IH" [OF True s5 d])
    have j: "(push_bit shift (of_nat (u mod 32)) OR push_bit (shift + 5) (of_nat (u div 0x20)) :: int32)
        = push_bit shift (of_nat u)"
    proof -
      have "(push_bit (shift + 5) (of_nat (u div 0x20)) :: int32)
          = push_bit shift (push_bit 5 (of_nat (u div 32)))"
        by (simp add: push_bit_push_bit add.commute)
      then have "(push_bit shift (of_nat (u mod 32)) OR push_bit (shift + 5) (of_nat (u div 0x20)) :: int32)
          = push_bit shift (of_nat (u mod 32) OR push_bit 5 (of_nat (u div 32)))"
        by (simp only: push_bit_or)
      then show ?thesis by (simp only: split_5)
    qed
    show ?thesis
      using "1.prems"(1)
      by (simp only: e append_Cons decode_chunks_more ih or.assoc j)
  qed
qed

lemma decode_chunks_value:
  assumes "- (2 ^ 30) \<le> v" and "v < 2 ^ 30"
  shows "decode_chunks (encode_value v @ rest) 0 0 =
           (of_nat (nat (if v < 0 then - (2 * v) - 1 else 2 * v)), rest)"
proof -
  have "nat (if v < 0 then - (2 * v) - 1 else 2 * v) < 2 ^ (32 - 0)"
    using assms by (auto simp: nat_less_iff)
  then show ?thesis
    unfolding encode_value_def
    using decode_chunks_encode [of 0 _ rest 0] by simp
qed

lemma encode_chunks_nonempty: "encode_chunks u \<noteq> []"
  by (subst encode_chunks.simps) simp

lemma encode_value_nonempty: "encode_value v \<noteq> []"
  by (simp add: encode_value_def encode_chunks_nonempty)

lemma decode_points_nonempty:
  assumes "s \<noteq> []"
  shows "decode_points s lat0 lng0 =
     \<lparr>lat = real_of_int (lat0 + delta_of (fst (decode_chunks s 0 0))) / 100000,
      lng = real_of_int (lng0 + delta_of (fst (decode_chunks (snd (decode_chunks s 0 0)) 0 0))) / 100000\<rparr>
     # decode_points (snd (decode_chunks (snd (decode_chunks s 0 0)) 0 0))
         (lat0 + delta_of (fst (decode_chunks s 0 0)))
         (lng0 + delta_of (fst (decode_chunks (snd (decode_chunks s 0 0)) 0 0)))"
proof -
  from assms obtain c cs where s: "s = c # cs" by (cases s) auto
  show ?thesis unfolding s by (simp only: decode_points.simps Let_def)
qed

lemma decode_points_pair:
  assumes "- (2 ^ 30) \<le> a" "a < 2 ^ 30" "- (2 ^ 30) \<le> b" "b < 2 ^ 30"
  shows "decode_points (encode_value a @ encode_value b @ rest) lat0 lng0 =
     \<lparr>lat = real_of_int (lat0 + a) / 100000, lng = real_of_int (lng0 + b) / 100000\<rparr>
     # decode_points rest (lat0 + a) (lng0 + b)"
proof -
  have ne: "encode_value a @ encode_value b @ rest \<noteq> []"
    by (simp add: encode_value_nonempty)
  have r1: "decode_chunks (encode_value a @ encode_value b @ rest) 0 0 =
      (of_nat (nat (if a < 0 then - (2 * a) - 1 else 2 * a)), encode_value b @ rest)"
    by (rule decode_chunks_value [OF assms(1,2)])
  have r2: "decode_chunks (encode_value b @ rest) 0 0 =
      (of_nat (nat (if b < 0 then - (2 * b) - 1 else 2 * b)), rest)"
    by (rule decode_chunks_value [OF assms(3,4)])
  show ?thesis
    by (simp only: decode_points_nonempty [OF ne] r1 r2 fst_conv snd_conv
        delta_of_zigzag [OF assms(1,2)] delta_of_zigzag [OF assms(3,4)])
qed

lemma js_round_range:
  assumes "\<bar>x\<bar> \<le> real_of_int n"
  shows "\<bar>js_round x\<bar> \<le> n"
proof -
  have "js_round x \<le> n"
    unfolding js_round_def using assms by (simp add: floor_le_iff abs_le_iff)
  moreover have "- n \<le> js_round x"
    unfolding js_round_def using assms by (simp add: le_floor_iff abs_le_iff)
  ultimately show ?thesis by simp
qed

lemma js_round_close: "\<bar>real_of_int (js_round x) - x\<bar> \<le> 1 / 2"
  unfolding js_round_def by linarith

lemma scaled_close:
  "\<bar>real_of_int (js_round (x * 100000)) / 100000 - x\<bar> \<le> 1 / 100000"
proof -
  have "real_of_int (js_round (x * 100000)) / 100000 - x =
        (real_of_int (js_round (x * 100000)) - x * 100000) / 100000" by simp
  then have "\<bar>real_of_int (js_round (x * 100000)) / 100000 - x\<bar> =
        \<bar>real_of_int (js_round (x * 100000)) - x * 100000\<bar> / 100000"
    by (simp only: abs_divide abs_numeral)
  also have "\<dots> \<le> (1 / 2) / 100000"
    using js_round_close [of "x * 100000"] by (simp only: divide_right_mono zero_le_numeral)
  finally show ?thesis by simp
qed

lemma decode_encode_points:
  assumes "\<forall>p \<in> set path. \<bar>lat p\<bar> \<le> 90 \<and> \<bar>lng p\<bar> \<le> 180"
    and "\<bar>lat0\<bar> \<le> 9000000" and "\<bar>lng0\<bar> \<le> 18000000"
  shows "decode_points (encode_points lat0 lng0 path) lat0 lng0 = map rounded path"
  using assms
proof (induction path arbitrary: lat0 lng0)
  case Nil
  show ?case by simp
next
  case (Cons p ps)
  define lat1 where "lat1 = js_round (lat p * 100000)"
  define lng1 where "lng1 = js_round (lng p * 100000)"
  have "\<bar>lat p\<bar> \<le> 90" and "\<bar>lng p\<bar> \<le> 180" using Cons.prems(1) by simp_all
  then have "\<bar>lat p * 100000\<bar> \<le> real_of_int 9000000"
    and "\<bar>lng p * 100000\<bar> \<le> real_of_int 18000000" by (simp_all add: abs_mult)
  then have b1: "\<bar>lat1\<bar> \<le> 9000000" and b2: "\<bar>lng1\<bar> \<le> 18000000"
    unfolding lat1_def lng1_def by (simp_all only: js_round_range)
  have ra: "- (2 ^ 30) \<le> lat1 - lat0" "lat1 - lat0 < 2 ^ 30"
    using b1 Cons.prems(2) by simp_all
  have rb: "- (2 ^ 30) \<le> lng1 - lng0" "lng1 - lng0 < 2 ^ 30"
    using b2 Cons.prems(3) by simp_all
  have e: "encode_points lat0 lng0 (p # ps) =
      encode_value (lat1 - lat0) @ encode_value (lng1 - lng0) @ encode_points lat1 lng1 ps"
    by (simp add: Let_def lat1_def lng1_def)
  have ih: "decode_points (encode_points lat1 lng1 ps) lat1 lng1 = map rounded ps"
    using Cons.prems(1) b1 b2 by (intro Cons.IH) simp_all
  have "decode_points (encode_points lat0 lng0 (p # ps)) lat0 lng0 =
      \<lparr>lat = real_of_int (lat0 + (lat1 - lat0)) / 100000,
       lng = real_of_int (lng0 + (lng1 - lng0)) / 100000\<rparr>
      # decode_points (encode_points lat1 lng1 ps) (lat0 + (lat1 - lat0)) (lng0 + (lng1 - lng0))"
    unfolding e by (rule decode_points_pair [OF ra rb])
  also have "\<dots> = \<lparr>lat = real_of_int lat1 / 100000, lng = real_of_int lng1 / 100000\<rparr>
      # map rounded ps"
    by (simp add: ih)
  also have "\<dots> = rounded p # map rounded ps"
    by (simp add: rounded_def lat1_def lng1_def)
  finally show ?case by simp
qed

lemma decode_encode_rounded:
  assumes "\<forall>p \<in> set path. \<bar>lat p\<bar> \<le> 90 \<and> \<bar>lng p\<bar> \<le> 180"
  shows "decodePolyline (encodePolyline path) = map rounded path"
proof (cases "encodePolyline path = []")
  case True
  have "path = []"
  proof (cases path)
    case Nil
    then show ?thesis .
  next
    case (Cons p ps)
    then have "encodePolyline path \<noteq> []"
      by (simp add: encodePolyline_def Let_def encode_value_nonempty)
    with True show ?thesis by simp
  qed
  then show ?thesis by (simp add: decodePolyline_def encodePolyline_def)
next
  case False
  then have "decodePolyline (encodePolyline path) = decode_points (encode_points 0 0 path) 0 0"
    by (simp add: decodePolyline_def encodePolyline_def)
  also have "\<dots> = map rounded path"
    using assms by (intro decode_encode_points) simp_all
  finally show ?thesis .
qed

lemma rounded_close: "close_to (rounded p) p"
proof -
  have "\<bar>lat (rounded p) - lat p\<bar> \<le> 1 / 100000"
    unfolding rounded_def latlng.select_convs by (rule scaled_close)
  moreover have "\<bar>lng (rounded p) - lng p\<bar> \<le> 1 / 100000"
    unfolding rounded_def latlng.select_convs by (rule scaled_close)
  ultimately show ?thesis unfolding close_to_def by (rule conjI)
qed

text \<open>
  Claim C9. For every path of geographic coordinates (latitude within 90 degrees and
  longitude within 180 degrees of 0), decoding the encoded path with \<^verbatim>\<open>decodePolyline\<close>
  gives a path of the same length whose points agree with the original ones within
  \<open>1e-5\<close> degrees in latitude and in longitude.
\<close>

theorem polyline_round_trip:
  assumes "\<forall>p \<in> set path. \<bar>lat p\<bar> \<le> 90 \<and> \<bar>lng p\<bar> \<le> 180"
  shows "list_all2 close_to (decodePolyline (encodePolyline path)) path"
  unfolding decode_encode_rounded [OF assms]
  by (simp add: list_all2_map1 list_all2_same rounded_close)

theorem polyline_round_trip_witness:
  "list_all2 close_to
     (decodePolyline (encodePolyline [\<lparr>lat = - 1.9441, lng = 30.0619\<rparr>, DESTINATION]))
     [\<lparr>lat = - 1.9441, lng = 30.0619\<rparr>, DESTINATION]"
proof -
  have "\<forall>p \<in> set [\<lparr>lat = - 1.9441, lng = 30.0619\<rparr>, DESTINATION].
      \<bar>lat p\<bar> \<le> 90 \<and> \<bar>lng p\<bar> \<le> 180"
    by (simp add: DESTINATION_def)
  then show ?thesis by (rule polyline_round_trip)
qed

lemma decodePolyline_example:
  "decodePolyline ''_p~iF~ps|U_ulLnnqC'' =
     [\<lparr>lat = 38.5, lng = - 120.2\<rparr>, \<lparr>lat = 40.7, lng = - 120.95\<rparr>]"
  by code_simp

end
